theory Spec2Isabelle
  imports
    Main
    "HOL-Library.Char_ord"
    "HOL-Library.List_Lexorder"
    "HOL-Library.Product_Lexorder"
    "HOL-Library.Multiset"
    "HOL-Library.Sublist"
begin

section \<open>The JavaScript runtime the dashboard relies on\<close>

text \<open>
  The stale-items dashboard (\<^verbatim>\<open>stale-dashboard/app.js\<close>) is a single class,
  \<^verbatim>\<open>StaleDashboard\<close>. Its methods are embedded below as functions on an explicit
  state record. This first section models the parts of the language runtime the methods
  call: strings, \<^verbatim>\<open>parseInt\<close>, number-to-string conversion, truthiness,
  \<^verbatim>\<open>Array.prototype.sort\<close> and the \<^verbatim>\<open>Date\<close> operations.

  Strings are lists of 8-bit characters compared lexicographically by character code, which
  is what \<^verbatim>\<open><\<close> does on JavaScript strings for ASCII text.
\<close>

subsection \<open>Strings\<close>

definition toLowerCase_char :: "char \<Rightarrow> char" where
  "toLowerCase_char c =
     (let n = (of_char c :: nat) in if 65 \<le> n \<and> n \<le> 90 then char_of (n + 32) else c)"

definition toLowerCase :: "string \<Rightarrow> string" where
  "toLowerCase s = map toLowerCase_char s"

fun startsWith :: "string \<Rightarrow> string \<Rightarrow> bool" where
  "startsWith s [] = True"
| "startsWith [] (p # ps) = False"
| "startsWith (c # cs) (p # ps) = (c = p \<and> startsWith cs ps)"

text \<open>\<^verbatim>\<open>s.includes(sub)\<close>: \<open>sub\<close> occurs in \<open>s\<close> as a contiguous substring.\<close>

fun includes_str :: "string \<Rightarrow> string \<Rightarrow> bool" where
  "includes_str [] sub = (sub = [])"
| "includes_str (c # cs) sub = (startsWith (c # cs) sub \<or> includes_str cs sub)"

text \<open>\<^verbatim>\<open>xs.join(',')\<close> on an array of strings.\<close>

fun join_comma :: "string list \<Rightarrow> string" where
  "join_comma [] = []"
| "join_comma [x] = x"
| "join_comma (x # y # ys) = x @ '','' @ join_comma (y # ys)"

subsection \<open>Numbers to strings and back\<close>

definition digit_char :: "nat \<Rightarrow> char" where
  "digit_char d = char_of (48 + d)"

fun nat_digits :: "nat \<Rightarrow> string" where
  "nat_digits n =
     (if n < 10 then [digit_char n] else nat_digits (n div 10) @ [digit_char (n mod 10)])"

declare nat_digits.simps [simp del]

text \<open>
  \<^verbatim>\<open>String(n)\<close> for an integer \<open>n\<close>: an optional minus sign and the decimal digits
  (the form JavaScript uses for every integer below \<open>10^21\<close> in magnitude).
\<close>

definition toString :: "int \<Rightarrow> string" where
  "toString n = (if n < 0 then CHR ''-'' # nat_digits (nat (- n)) else nat_digits (nat n))"

definition isWhiteSpace :: "char \<Rightarrow> bool" where
  "isWhiteSpace c = ((of_char c :: nat) \<in> {9, 10, 11, 12, 13, 32})"

definition digit_value :: "char \<Rightarrow> nat option" where
  "digit_value c =
     (let n = (of_char c :: nat) in
      if 48 \<le> n \<and> n \<le> 57 then Some (n - 48)
      else if 97 \<le> n \<and> n \<le> 122 then Some (n - 87)
      else if 65 \<le> n \<and> n \<le> 90 then Some (n - 55)
      else None)"

definition isRadixDigit :: "nat \<Rightarrow> char \<Rightarrow> bool" where
  "isRadixDigit r c = (case digit_value c of None \<Rightarrow> False | Some v \<Rightarrow> v < r)"

definition digits_value :: "nat \<Rightarrow> string \<Rightarrow> nat" where
  "digits_value r ds = foldl (\<lambda>acc c. acc * r + the (digit_value c)) 0 ds"

text \<open>
  \<^verbatim>\<open>parseInt(s)\<close> with no radix argument: skip leading white space, read a sign, switch
  to base 16 after a \<^verbatim>\<open>0x\<close> prefix, and take the longest prefix of digits. \<open>None\<close>
  is \<^verbatim>\<open>NaN\<close> (no digit at all).
\<close>

definition parseInt :: "string \<Rightarrow> int option" where
  "parseInt inputString =
     (let S = dropWhile isWhiteSpace inputString;
          sign = (if startsWith S ''-'' then - 1 else 1 :: int);
          S1 = (if startsWith S ''-'' \<or> startsWith S ''+'' then tl S else S);
          hex = (startsWith S1 ''0x'' \<or> startsWith S1 ''0X'');
          R = (if hex then 16 else 10);
          S2 = (if hex then drop 2 S1 else S1);
          Z = takeWhile (isRadixDigit R) S2
      in if Z = [] then None else Some (sign * int (digits_value R Z)))"

subsection \<open>Values and truthiness\<close>

text \<open>
  A JSON value as far as its truthiness goes: what \<^verbatim>\<open>item.pull_request\<close> may hold.
  \<open>JUndefined\<close> is an absent field.
\<close>

datatype js_value =
    JUndefined
  | JNull
  | JBoolean bool
  | JNumber int
  | JString string
  | JObject

fun truthy :: "js_value \<Rightarrow> bool" where
  "truthy JUndefined = False"
| "truthy JNull = False"
| "truthy (JBoolean b) = b"
| "truthy (JNumber n) = (n \<noteq> 0)"
| "truthy (JString s) = (s \<noteq> [])"
| "truthy JObject = True"

text \<open>
  The operands of the relational operators in \<^verbatim>\<open>sortBy\<close>: a number (also after
  \<^verbatim>\<open>getTime()\<close>), \<^verbatim>\<open>NaN\<close>, a string, an array of strings, or
  \<^verbatim>\<open>undefined\<close> (a field the item does not have).
\<close>

datatype operand =
    Num int
  | NaN
  | Str string
  | Arr "string list"
  | Undefined

text \<open>
  \<^verbatim>\<open>a < b\<close>. Numbers compare numerically, strings by character code; an array is
  first converted to the string \<^verbatim>\<open>join(',')\<close>; \<^verbatim>\<open>NaN\<close> and
  \<^verbatim>\<open>undefined\<close> compare false with everything. The two operands of one comparison in
  \<^verbatim>\<open>sortBy\<close> are the same field of two items, so they always carry the same tag; the
  mixed number-with-string cases never arise and are given as false.
\<close>

fun js_less :: "operand \<Rightarrow> operand \<Rightarrow> bool" where
  "js_less (Num a) (Num b) = (a < b)"
| "js_less (Str a) (Str b) = (a < b)"
| "js_less (Arr a) (Arr b) = (join_comma a < join_comma b)"
| "js_less (Str a) (Arr b) = (a < join_comma b)"
| "js_less (Arr a) (Str b) = (join_comma a < b)"
| "js_less _ _ = False"

subsection \<open>Array.prototype.sort\<close>

text \<open>
  \<^verbatim>\<open>xs.sort(cmp)\<close> is a stable sort (ECMAScript 2019 and later): for a consistent
  comparator its result is the one arrangement that is ordered by \<open>cmp\<close> and keeps
  tied elements in input order. Insertion from the right computes that arrangement: an
  element goes in front of the first element it does not have to follow
  (\<open>cmp x y \<le> 0\<close>).
\<close>

fun sort_insert :: "('a \<Rightarrow> 'a \<Rightarrow> int) \<Rightarrow> 'a \<Rightarrow> 'a list \<Rightarrow> 'a list" where
  "sort_insert cmp x [] = [x]"
| "sort_insert cmp x (y # ys) =
     (if cmp x y \<le> 0 then x # y # ys else y # sort_insert cmp x ys)"

fun js_sort :: "('a \<Rightarrow> 'a \<Rightarrow> int) \<Rightarrow> 'a list \<Rightarrow> 'a list" where
  "js_sort cmp [] = []"
| "js_sort cmp (x # xs) = sort_insert cmp x (js_sort cmp xs)"

subsection \<open>Dates\<close>

text \<open>
  An instant is a number of milliseconds since the epoch, as \<^verbatim>\<open>getTime()\<close> returns
  it. A calendar date (an ISO string \<^verbatim>\<open>YYYY-MM-DD\<close>) is modelled by its day number,
  the count of days since the epoch: \<^verbatim>\<open>new Date('YYYY-MM-DD')\<close> is midnight UTC of
  that day, and \<^verbatim>\<open>toISOString().split('T')[0]\<close> is the UTC day an instant falls in.

  \<^verbatim>\<open>getDate\<close> and \<^verbatim>\<open>setDate\<close> work on local time. A time zone gives the offset
  of local time from UTC, in milliseconds, once as a function of the UTC instant and once
  as a function of the local time.
\<close>

definition msPerDay :: int where
  "msPerDay = 86400000"

definition Date_parse :: "int \<Rightarrow> int" where
  "Date_parse day = day * msPerDay"

definition toISODate :: "int \<Rightarrow> int" where
  "toISODate t = t div msPerDay"

record timezone =
  offsetAtUTC :: "int \<Rightarrow> int"
  offsetAtLocal :: "int \<Rightarrow> int"

definition LocalTime :: "timezone \<Rightarrow> int \<Rightarrow> int" where
  "LocalTime tz t = t + offsetAtUTC tz t"

definition UTC :: "timezone \<Rightarrow> int \<Rightarrow> int" where
  "UTC tz l = l - offsetAtLocal tz l"

text \<open>
  \<^verbatim>\<open>d.setDate(d.getDate() - n)\<close>: the local wall-clock time is kept and the local
  day moves back \<open>n\<close> days; the result is converted back to an instant with the offset in
  force at that local time.
\<close>

definition setDate_back :: "timezone \<Rightarrow> int \<Rightarrow> int \<Rightarrow> int" where
  "setDate_back tz t n = UTC tz (LocalTime tz t - n * msPerDay)"

definition fixedZone :: "int \<Rightarrow> timezone" where
  "fixedZone off = \<lparr>offsetAtUTC = (\<lambda>t. off), offsetAtLocal = (\<lambda>l. off)\<rparr>"

section \<open>Data model\<close>

subsection \<open>Stale items and the records they are made from\<close>

text \<open>
  The object \<^verbatim>\<open>fetchStaleItems\<close> pushes for every record of the listing. \<open>updated\<close>
  is the instant of the \<^verbatim>\<open>Date\<close> object, in milliseconds.
\<close>

record staleItem =
  type :: string
  repo :: string
  org :: string
  repoName :: string
  title :: string
  number :: int
  author :: string
  updated :: int
  labels :: "string list"
  url :: string
  state :: string

text \<open>
  A record of the listing endpoint, with the fields the dashboard reads. \<open>user\<close> and
  \<open>item_labels\<close> are optional: reading \<^verbatim>\<open>item.user.login\<close> or calling
  \<^verbatim>\<open>item.labels.map\<close> on a record without them raises a \<^verbatim>\<open>TypeError\<close>.
  \<open>updated_at\<close> is the instant the ISO timestamp denotes.
\<close>

record raw_user =
  login :: string

record raw_label =
  name :: string

record raw_item =
  pull_request :: js_value
  item_title :: string
  item_number :: int
  user :: "raw_user option"
  updated_at :: int
  item_labels :: "raw_label list option"
  html_url :: string
  item_state :: string

subsection \<open>Configuration and the network\<close>

text \<open>
  \<^verbatim>\<open>DASHBOARD_CONFIG\<close> is defined outside this file; it is a parameter here: the list
  of (org, repo) pairs and the optional token.
\<close>

record dashboard_config =
  cfg_repositories :: "(string \<times> string) list"
  githubToken :: "string option"

text \<open>
  The outcome of \<^verbatim>\<open>await fetch(...)\<close>: the promise rejects (\<open>NetworkError\<close>) or
  resolves to a response with a status and a body; the body is \<open>None\<close> when
  \<^verbatim>\<open>response.json()\<close> rejects because the text is not JSON.
\<close>

datatype 'a response =
    NetworkError
  | Response nat "'a option"

definition ok :: "nat \<Rightarrow> bool" where
  "ok status = (200 \<le> status \<and> status \<le> 299)"

datatype issues_body =
    IssuesArray "raw_item list"
  | NotAnArray

record request =
  req_url :: string
  req_authorization :: "string option"

type_synonym items_api = "request \<Rightarrow> issues_body response"

datatype js_error =
    FetchRejected
  | JsonSyntaxError
  | TypeError

text \<open>
  How a block ends: normally, or by throwing; either way with the state as the block left
  it.
\<close>

datatype 'a completion =
    Normal 'a
  | Throw js_error 'a

subsection \<open>Daily snapshots\<close>

record totals_rec =
  totalStale :: "int option"
  staleIssues :: "int option"
  stalePRs :: "int option"

record repoEntry =
  r_repo :: string
  r_totalStale :: int

text \<open>
  The body of \<^verbatim>\<open>data/history/YYYY-MM-DD.json\<close>. \<open>date\<close> is the day number of
  the ISO date string in the body; the files are addressed by day number as well.
\<close>

record snapshot =
  date :: int
  totals :: "totals_rec option"
  repositories :: "repoEntry list option"

type_synonym history_store = "int \<Rightarrow> snapshot response"

subsection \<open>The page and the dashboard object\<close>

record trendsData =
  trend_labels :: "int list"
  trend_totalStale :: "int list"
  trend_staleIssues :: "int list"
  trend_stalePRs :: "int list"

record breakdownData =
  bar_labels :: "string list"
  bar_data :: "int list"
  bar_colors :: "string list"

text \<open>A chart object draws its data until \<^verbatim>\<open>destroy()\<close> is called on it.\<close>

datatype 'a chart =
    Live 'a
  | Destroyed 'a

record charts_rec =
  trends :: "trendsData chart option"
  breakdown :: "breakdownData chart option"

datatype table_body =
    NoDataRow
  | ItemRows "staleItem list"
  | ErrorRow

text \<open>
  The part of the page the methods read and write: the values of the three filter
  controls and of the period selector, the options of the repository selector, the table
  body and the visibility of the trends panel.
\<close>

record document =
  repo_filter :: string
  repo_filter_options :: "string list"
  type_filter :: string
  search_filter :: string
  trend_period :: string
  table_body :: table_body
  trends_panel_shown :: bool

record sortState =
  field :: string
  ascending :: bool

record dashboard =
  staleItems :: "staleItem list"
  filteredItems :: "staleItem list"
  historicalData :: "snapshot list"
  currentSort :: sortState
  charts :: charts_rec
  document :: document

text \<open>The fields as the constructor sets them, on a given page.\<close>

definition StaleDashboard :: "document \<Rightarrow> dashboard" where
  "StaleDashboard doc =
     \<lparr>staleItems = [], filteredItems = [], historicalData = [],
      currentSort = \<lparr>field = ''updated'', ascending = False\<rparr>,
      charts = \<lparr>trends = None, breakdown = None\<rparr>,
      document = doc\<rparr>"

section \<open>Source adapter: \<^verbatim>\<open>fetchStaleItems\<close> and \<^verbatim>\<open>loadData\<close>\<close>

text \<open>
  The object literal pushed for one record. Its fields are evaluated in order;
  \<^verbatim>\<open>item.user.login\<close> and \<^verbatim>\<open>item.labels.map(l => l.name)\<close> are the two that
  can throw.
\<close>

definition normalizeItem :: "string \<Rightarrow> string \<Rightarrow> raw_item \<Rightarrow> js_error + staleItem" where
  "normalizeItem org0 repo0 item =
     (case user item of
        None \<Rightarrow> Inl TypeError
      | Some u \<Rightarrow>
          (case item_labels item of
             None \<Rightarrow> Inl TypeError
           | Some ls \<Rightarrow>
               Inr \<lparr>type = (if truthy (pull_request item) then ''pr'' else ''issue''),
                    repo = org0 @ ''/'' @ repo0,
                    org = org0,
                    repoName = repo0,
                    title = item_title item,
                    number = item_number item,
                    author = login u,
                    updated = updated_at item,
                    labels = map name ls,
                    url = html_url item,
                    state = item_state item\<rparr>))"

text \<open>
  \<^verbatim>\<open>issues.forEach(item => this.staleItems.push({...}))\<close> on the store \<open>acc\<close>: the
  items pushed before a record throws stay in the store.
\<close>

fun pushItems :: "string \<Rightarrow> string \<Rightarrow> raw_item list \<Rightarrow> staleItem list \<Rightarrow> staleItem list completion" where
  "pushItems org0 repo0 [] acc = Normal acc"
| "pushItems org0 repo0 (item # items) acc =
     (case normalizeItem org0 repo0 item of
        Inl e \<Rightarrow> Throw e acc
      | Inr it \<Rightarrow> pushItems org0 repo0 items (acc @ [it]))"

definition issuesRequest :: "dashboard_config \<Rightarrow> string \<Rightarrow> string \<Rightarrow> request" where
  "issuesRequest cfg org0 repo0 =
     \<lparr>req_url = ''https://api.github.com'' @ ''/repos/'' @ org0 @ ''/'' @ repo0
                  @ ''/issues?labels=stale&state=open&per_page=100'',
      req_authorization =
        (case githubToken cfg of
           None \<Rightarrow> None
         | Some t \<Rightarrow> if t \<noteq> [] then Some (''token '' @ t) else None)\<rparr>"

text \<open>The body of the \<^verbatim>\<open>try\<close> block of \<^verbatim>\<open>fetchStaleItems\<close>.\<close>

definition fetchStaleItems_try ::
  "dashboard_config \<Rightarrow> items_api \<Rightarrow> string \<Rightarrow> string \<Rightarrow> dashboard \<Rightarrow> dashboard completion" where
  "fetchStaleItems_try cfg api org0 repo0 s =
     (case api (issuesRequest cfg org0 repo0) of
        NetworkError \<Rightarrow> Throw FetchRejected s
      | Response status body \<Rightarrow>
          if \<not> ok status then Normal s
          else
            (case body of
               None \<Rightarrow> Throw JsonSyntaxError s
             | Some NotAnArray \<Rightarrow> Throw TypeError s
             | Some (IssuesArray issues) \<Rightarrow>
                 (case pushItems org0 repo0 issues (staleItems s) of
                    Normal items \<Rightarrow> Normal (s\<lparr>staleItems := items\<rparr>)
                  | Throw e items \<Rightarrow> Throw e (s\<lparr>staleItems := items\<rparr>))))"

text \<open>
  \<^verbatim>\<open>fetchStaleItems\<close>: the \<^verbatim>\<open>try\<close> block and its \<^verbatim>\<open>catch\<close>, which logs to
  the console and falls through. The console is not part of the state.
\<close>

definition fetchStaleItems ::
  "dashboard_config \<Rightarrow> items_api \<Rightarrow> string \<Rightarrow> string \<Rightarrow> dashboard \<Rightarrow> dashboard completion" where
  "fetchStaleItems cfg api org0 repo0 s =
     (case fetchStaleItems_try cfg api org0 repo0 s of
        Normal s' \<Rightarrow> Normal s'
      | Throw e s' \<Rightarrow> Normal s')"

section \<open>Filter and sort engine\<close>

definition renderTable :: "dashboard \<Rightarrow> dashboard" where
  "renderTable s =
     s\<lparr>document := (document s)\<lparr>table_body :=
          (if filteredItems s = [] then NoDataRow else ItemRows (filteredItems s))\<rparr>\<rparr>"

definition showError :: "dashboard \<Rightarrow> dashboard" where
  "showError s = s\<lparr>document := (document s)\<lparr>table_body := ErrorRow\<rparr>\<rparr>"

text \<open>The callback of \<^verbatim>\<open>this.staleItems.filter\<close> in \<^verbatim>\<open>applyFilters\<close>.\<close>

definition passesFilters :: "string \<Rightarrow> string \<Rightarrow> string \<Rightarrow> staleItem \<Rightarrow> bool" where
  "passesFilters repoFilter typeFilter searchFilter item =
     (if repoFilter \<noteq> [] \<and> repo item \<noteq> repoFilter then False
      else if typeFilter \<noteq> [] \<and> type item \<noteq> typeFilter then False
      else if searchFilter \<noteq> [] \<and> \<not> includes_str (toLowerCase (title item)) searchFilter
        then False
      else True)"

definition applyFilters :: "dashboard \<Rightarrow> dashboard" where
  "applyFilters s =
     (let repoFilter = repo_filter (document s);
          typeFilter = type_filter (document s);
          searchFilter = toLowerCase (search_filter (document s))
      in renderTable
           (s\<lparr>filteredItems :=
                filter (passesFilters repoFilter typeFilter searchFilter) (staleItems s)\<rparr>))"

definition clearFilters :: "dashboard \<Rightarrow> dashboard" where
  "clearFilters s =
     applyFilters
       (s\<lparr>document := (document s)\<lparr>repo_filter := [], type_filter := [], search_filter := []\<rparr>\<rparr>)"

text \<open>\<^verbatim>\<open>a[field]\<close> for the fields that are not handled before the string test.\<close>

definition getField :: "string \<Rightarrow> staleItem \<Rightarrow> operand" where
  "getField fld a =
     (if fld = ''type'' then Str (type a)
      else if fld = ''repo'' then Str (repo a)
      else if fld = ''org'' then Str (org a)
      else if fld = ''repoName'' then Str (repoName a)
      else if fld = ''title'' then Str (title a)
      else if fld = ''number'' then Num (number a)
      else if fld = ''author'' then Str (author a)
      else if fld = ''updated'' then Num (updated a)
      else if fld = ''labels'' then Arr (labels a)
      else if fld = ''url'' then Str (url a)
      else if fld = ''state'' then Str (state a)
      else Undefined)"

text \<open>
  The value the comparator of \<^verbatim>\<open>sortBy\<close> compares: \<^verbatim>\<open>getTime()\<close> of the date,
  \<^verbatim>\<open>parseInt\<close> of the number (which is first converted to a string), the lower-cased
  string, or the field as it is.
\<close>

definition sortValue :: "string \<Rightarrow> staleItem \<Rightarrow> operand" where
  "sortValue fld a =
     (if fld = ''updated'' then Num (updated a)
      else if fld = ''number'' then
        (case parseInt (toString (number a)) of None \<Rightarrow> NaN | Some n \<Rightarrow> Num n)
      else (case getField fld a of Str v \<Rightarrow> Str (toLowerCase v) | v \<Rightarrow> v))"

definition compareItems :: "sortState \<Rightarrow> string \<Rightarrow> staleItem \<Rightarrow> staleItem \<Rightarrow> int" where
  "compareItems cs fld a b =
     (let aVal = sortValue fld a; bVal = sortValue fld b
      in if js_less aVal bVal then (if ascending cs then - 1 else 1)
         else if js_less bVal aVal then (if ascending cs then 1 else - 1)
         else 0)"

definition sortBy :: "string \<Rightarrow> dashboard \<Rightarrow> dashboard" where
  "sortBy fld s =
     (let cs = (if field (currentSort s) = fld
                then (currentSort s)\<lparr>ascending := \<not> ascending (currentSort s)\<rparr>
                else (currentSort s)\<lparr>field := fld, ascending := False\<rparr>)
      in renderTable
           (s\<lparr>currentSort := cs,
              filteredItems := js_sort (compareItems cs fld) (filteredItems s)\<rparr>))"

section \<open>The load cycle\<close>

text \<open>
  \<^verbatim>\<open>populateRepoFilter\<close> rebuilds the options of the repository selector (the empty
  value first, then the distinct repository keys in sorted order); the rebuilt selector
  shows its first option, so its value is empty again.
\<close>

definition populateRepoFilter :: "dashboard \<Rightarrow> dashboard" where
  "populateRepoFilter s =
     s\<lparr>document := (document s)
          \<lparr>repo_filter := [],
           repo_filter_options := [] # sort (remdups (map repo (staleItems s)))\<rparr>\<rparr>"

text \<open>The \<^verbatim>\<open>for ... of\<close> loop of \<^verbatim>\<open>loadData\<close> over the configured repositories.\<close>

fun loadData_loop ::
  "dashboard_config \<Rightarrow> items_api \<Rightarrow> (string \<times> string) list \<Rightarrow> dashboard \<Rightarrow> dashboard completion" where
  "loadData_loop cfg api [] s = Normal s"
| "loadData_loop cfg api ((org0, repo0) # rest) s =
     (case fetchStaleItems cfg api org0 repo0 s of
        Normal s' \<Rightarrow> loadData_loop cfg api rest s'
      | Throw e s' \<Rightarrow> Throw e s')"

text \<open>
  \<^verbatim>\<open>loadData\<close>. \<^verbatim>\<open>updateStats\<close> and \<^verbatim>\<open>updateLastUpdated\<close> only write text
  derived from the store to the page and are left out.
\<close>

definition loadData :: "dashboard_config \<Rightarrow> items_api \<Rightarrow> dashboard \<Rightarrow> dashboard" where
  "loadData cfg api s =
     (case loadData_loop cfg api (cfg_repositories cfg) (s\<lparr>staleItems := []\<rparr>) of
        Normal s' \<Rightarrow> applyFilters (populateRepoFilter s')
      | Throw e s' \<Rightarrow> showError s')"

section \<open>Trend reducer: \<^verbatim>\<open>updateCharts\<close> and the two renderers\<close>

text \<open>
  The local \<^verbatim>\<open>data\<close> of \<^verbatim>\<open>updateCharts\<close>. When \<^verbatim>\<open>parseInt(period)\<close> is
  \<^verbatim>\<open>NaN\<close> the cutoff is an invalid date and every comparison with it is false.
\<close>

definition periodData :: "timezone \<Rightarrow> int \<Rightarrow> string \<Rightarrow> snapshot list \<Rightarrow> snapshot list" where
  "periodData tz now period hist =
     (if period \<noteq> ''all'' then
        (case parseInt period of
           None \<Rightarrow> filter (\<lambda>d. False) hist
         | Some n \<Rightarrow>
             (let cutoffDate = setDate_back tz now n
              in filter (\<lambda>d. Date_parse (date d) \<ge> cutoffDate) hist))
      else hist)"

fun destroy :: "'a chart \<Rightarrow> 'a chart" where
  "destroy (Live d) = Destroyed d"
| "destroy (Destroyed d) = Destroyed d"

text \<open>\<^verbatim>\<open>x || 0\<close> on an optional count.\<close>

definition orZero :: "int option \<Rightarrow> int" where
  "orZero v = (case v of None \<Rightarrow> 0 | Some n \<Rightarrow> n)"

definition totalsField :: "(totals_rec \<Rightarrow> int option) \<Rightarrow> snapshot \<Rightarrow> int" where
  "totalsField f d = orZero (case totals d of None \<Rightarrow> None | Some t \<Rightarrow> f t)"

definition renderTrendsChart :: "snapshot list \<Rightarrow> dashboard \<Rightarrow> dashboard" where
  "renderTrendsChart data s =
     s\<lparr>charts := (charts s)\<lparr>trends := Some (Live
          \<lparr>trend_labels = map date data,
           trend_totalStale = map (totalsField totalStale) data,
           trend_staleIssues = map (totalsField staleIssues) data,
           trend_stalePRs = map (totalsField stalePRs) data\<rparr>)\<rparr>\<rparr>"

definition colors :: "string list" where
  "colors =
     [''#33b5e5'', ''#73bf69'', ''#ff9830'', ''#e02f44'', ''#a77ddc'',
      ''#5bc0de'', ''#f0ad4e'', ''#d9534f'', ''#5cb85c'', ''#337ab7'']"

text \<open>The local \<^verbatim>\<open>repos\<close> of \<^verbatim>\<open>renderBreakdownChart\<close>.\<close>

definition breakdownRepos :: "repoEntry list \<Rightarrow> repoEntry list" where
  "breakdownRepos rs =
     take 10
       (js_sort (\<lambda>a b. r_totalStale b - r_totalStale a)
          (filter (\<lambda>r. r_totalStale r > 0) rs))"

text \<open>
  \<^verbatim>\<open>renderBreakdownChart\<close>. The existing chart is destroyed first; on the early return
  the slot keeps the destroyed chart and nothing is drawn.
\<close>

definition renderBreakdownChart :: "snapshot list \<Rightarrow> dashboard \<Rightarrow> dashboard" where
  "renderBreakdownChart data s =
     (let s1 = s\<lparr>charts := (charts s)\<lparr>breakdown := map_option destroy (breakdown (charts s))\<rparr>\<rparr>
      in if data = [] then s1
         else
           (case repositories (last data) of
              None \<Rightarrow> s1
            | Some rs \<Rightarrow>
                (let repos = breakdownRepos rs
                 in s1\<lparr>charts := (charts s1)\<lparr>breakdown := Some (Live
                      \<lparr>bar_labels = map r_repo repos,
                       bar_data = map r_totalStale repos,
                       bar_colors = take (length repos) colors\<rparr>)\<rparr>\<rparr>)))"

definition updateCharts :: "timezone \<Rightarrow> int \<Rightarrow> dashboard \<Rightarrow> dashboard" where
  "updateCharts tz now s =
     (if historicalData s = [] then s
      else
        (let period = trend_period (document s);
             data = periodData tz now period (historicalData s)
         in renderBreakdownChart data (renderTrendsChart data s)))"

text \<open>What the breakdown chart draws: the bars of a live chart, nothing otherwise.\<close>

definition drawnBars :: "dashboard \<Rightarrow> (string \<times> int) list" where
  "drawnBars s =
     (case breakdown (charts s) of
        Some (Live d) \<Rightarrow> zip (bar_labels d) (bar_data d)
      | _ \<Rightarrow> [])"

section \<open>History loader: \<^verbatim>\<open>loadHistoricalData\<close>\<close>

text \<open>
  One iteration's inner \<^verbatim>\<open>try\<close>: the snapshot is pushed when the fetch resolves with a
  success status and the body parses; a rejected fetch or a body that is not JSON is
  caught and the iteration is skipped.
\<close>

definition tryLoadSnapshot :: "history_store \<Rightarrow> int \<Rightarrow> snapshot list \<Rightarrow> snapshot list" where
  "tryLoadSnapshot files dateStr historyData =
     (case files dateStr of
        NetworkError \<Rightarrow> historyData
      | Response status body \<Rightarrow>
          if ok status then
            (case body of
               None \<Rightarrow> historyData
             | Some data \<Rightarrow> historyData @ [data])
          else historyData)"

text \<open>
  The loop \<^verbatim>\<open>for (let i = 0; i < 365; i++)\<close>. Besides \<^verbatim>\<open>historyData\<close> the state
  carries the list of the dates requested so far.
\<close>

function loadHistory_loop ::
  "history_store \<Rightarrow> timezone \<Rightarrow> int \<Rightarrow> nat \<Rightarrow> int list \<times> snapshot list \<Rightarrow> int list \<times> snapshot list" where
  "loadHistory_loop files tz today i (probed, historyData) =
     (if i < 365 then
        (let date0 = setDate_back tz today (int i);
             dateStr = toISODate date0
         in loadHistory_loop files tz today (Suc i)
              (probed @ [dateStr], tryLoadSnapshot files dateStr historyData))
      else (probed, historyData))"
  by pat_completeness auto
termination
  by (relation "measure (\<lambda>(files, tz, today, i, acc). 365 - i)") auto

declare loadHistory_loop.simps [simp del]

definition compareDates :: "snapshot \<Rightarrow> snapshot \<Rightarrow> int" where
  "compareDates a b = Date_parse (date a) - Date_parse (date b)"

text \<open>
  \<^verbatim>\<open>loadHistoricalData\<close>, started at the instant \<open>today\<close>; \<open>now\<close> is the instant at
  which \<^verbatim>\<open>updateCharts\<close> runs after the scan.
\<close>

definition loadHistoricalData :: "history_store \<Rightarrow> timezone \<Rightarrow> int \<Rightarrow> int \<Rightarrow> dashboard \<Rightarrow> dashboard" where
  "loadHistoricalData files tz today now s =
     (let historyData = snd (loadHistory_loop files tz today 0 ([], []))
      in if length historyData > 0 then
           updateCharts tz now
             (s\<lparr>historicalData := js_sort compareDates historyData,
                document := (document s)\<lparr>trends_panel_shown := True\<rparr>\<rparr>)
         else s)"

text \<open>The dates \<^verbatim>\<open>loadHistoricalData\<close> requests, in request order.\<close>

definition probedDates :: "history_store \<Rightarrow> timezone \<Rightarrow> int \<Rightarrow> int list" where
  "probedDates files tz today = fst (loadHistory_loop files tz today 0 ([], []))"

section \<open>Auxiliary definitions for the properties\<close>

text \<open>
  The definitions of this section are not part of the program. They name notions the
  properties below speak about, and the concrete inputs on which the properties are
  instantiated.
\<close>

subsection \<open>Notions\<close>

definition isDecimalDigit :: "char \<Rightarrow> bool" where
  "isDecimalDigit c = (\<exists>d<10. c = digit_char d)"

text \<open>
  A key into a linear order that agrees with \<open>js_less\<close> on operands of the same tag
  (a number is ranked by its value, a string or an array by its text).
\<close>

fun sortKey :: "operand \<Rightarrow> int \<times> string" where
  "sortKey (Num n) = (n, [])"
| "sortKey (Str v) = (0, v)"
| "sortKey (Arr vs) = (0, join_comma vs)"
| "sortKey NaN = (0, [])"
| "sortKey Undefined = (0, [])"

text \<open>The state a block ends in, whether it returned or threw.\<close>

fun finalState :: "'a completion \<Rightarrow> 'a" where
  "finalState (Normal s) = s"
| "finalState (Throw e s) = s"

text \<open>A request fails: the transport fails, or the status is not a success status.\<close>

definition fetchFails :: "items_api \<Rightarrow> request \<Rightarrow> bool" where
  "fetchFails api req =
     (case api req of NetworkError \<Rightarrow> True | Response status body \<Rightarrow> \<not> ok status)"

text \<open>The items one repository's listing yields, computed without the dashboard state.\<close>

definition fetchedItems :: "dashboard_config \<Rightarrow> items_api \<Rightarrow> string \<Rightarrow> string \<Rightarrow> staleItem list" where
  "fetchedItems cfg api org0 repo0 =
     (case api (issuesRequest cfg org0 repo0) of
        NetworkError \<Rightarrow> []
      | Response status body \<Rightarrow>
          if ok status then
            (case body of
               Some (IssuesArray issues) \<Rightarrow> finalState (pushItems org0 repo0 issues [])
             | _ \<Rightarrow> [])
          else [])"

text \<open>The dashboard after the user has set the three filter controls.\<close>

definition withFilters :: "string \<Rightarrow> string \<Rightarrow> string \<Rightarrow> dashboard \<Rightarrow> dashboard" where
  "withFilters r t q s =
     s\<lparr>document := (document s)\<lparr>repo_filter := r, type_filter := t, search_filter := q\<rparr>\<rparr>"

text \<open>The stable sort of repository entries by descending count, with the library's sort.\<close>

definition descending :: "repoEntry list \<Rightarrow> repoEntry list" where
  "descending rs = sort_key (\<lambda>r. - r_totalStale r) rs"

text \<open>
  The date requested at offset \<open>i\<close> of the history scan, and the snapshots the request
  for one date adds.
\<close>

definition probeDate :: "timezone \<Rightarrow> int \<Rightarrow> nat \<Rightarrow> int" where
  "probeDate tz today i = toISODate (setDate_back tz today (int i))"

definition loadedAt :: "history_store \<Rightarrow> int \<Rightarrow> snapshot list" where
  "loadedAt files dateStr = tryLoadSnapshot files dateStr []"

subsection \<open>Concrete inputs\<close>

definition emptyDocument :: document where
  "emptyDocument =
     \<lparr>repo_filter = [], repo_filter_options = [], type_filter = [], search_filter = [],
      trend_period = ''all'', table_body = NoDataRow, trends_panel_shown = False\<rparr>"

definition exampleItem :: "string \<Rightarrow> int \<Rightarrow> string \<Rightarrow> staleItem" where
  "exampleItem k n t =
     \<lparr>type = k, repo = ''konveyor/operator'', org = ''konveyor'', repoName = ''operator'',
      title = t, number = n, author = ''octocat'', updated = 1700000000000,
      labels = [''stale''], url = ''https://example.test/'', state = ''open''\<rparr>"

definition exampleRaw :: "js_value \<Rightarrow> int \<Rightarrow> raw_item" where
  "exampleRaw marker n =
     \<lparr>pull_request = marker, item_title = ''Stale thing'', item_number = n,
      user = Some \<lparr>login = ''octocat''\<rparr>, updated_at = 1700000000000,
      item_labels = Some [\<lparr>name = ''stale''\<rparr>], html_url = ''https://example.test/'',
      item_state = ''open''\<rparr>"

definition exampleConfig :: dashboard_config where
  "exampleConfig =
     \<lparr>cfg_repositories = [(''konveyor'', ''broken''), (''konveyor'', ''operator'')],
      githubToken = None\<rparr>"

text \<open>A listing service that answers for one repository and fails for every other.\<close>

definition exampleApi :: items_api where
  "exampleApi req =
     (if req_url req
          = ''https://api.github.com/repos/konveyor/operator/issues?labels=stale&state=open&per_page=100''
      then Response 200 (Some (IssuesArray [exampleRaw JObject 7]))
      else Response 500 None)"

definition datedSnapshot :: "int \<Rightarrow> snapshot" where
  "datedSnapshot day = \<lparr>date = day, totals = None, repositories = None\<rparr>"

definition exampleRepos :: "repoEntry list" where
  "exampleRepos =
     [\<lparr>r_repo = ''konveyor/operator'', r_totalStale = 2\<rparr>,
      \<lparr>r_repo = ''konveyor/tackle2-ui'', r_totalStale = 0\<rparr>,
      \<lparr>r_repo = ''konveyor/analyzer-lsp'', r_totalStale = 5\<rparr>]"

text \<open>
  The zone Europe/London from spring 2023 to autumn 2024: summer time (one hour ahead of
  UTC) from 2023-03-26 01:00 UTC to 2023-10-29 01:00 UTC and from 2024-03-31 01:00 UTC to
  2024-10-27 01:00 UTC.
\<close>

definition europeLondon :: timezone where
  "europeLondon =
     \<lparr>offsetAtUTC = (\<lambda>t. if (1679792400000 \<le> t \<and> t < 1698541200000)
                             \<or> (1711846800000 \<le> t \<and> t < 1729990800000)
                          then 3600000 else 0),
      offsetAtLocal = (\<lambda>l. if (1679796000000 \<le> l \<and> l < 1698544800000)
                               \<or> (1711850400000 \<le> l \<and> l < 1729994400000)
                            then 3600000 else 0)\<rparr>"

text \<open>A history store that holds one file, for 2024-03-31 (day 19813), with that date in it.\<close>

definition march31Store :: history_store where
  "march31Store d =
     (if d = 19813 then Response 200 (Some (datedSnapshot 19813)) else Response 404 None)"

section \<open>Properties of the runtime model\<close>

subsection \<open>\<^verbatim>\<open>parseInt\<close> reads back what number-to-string conversion writes\<close>

lemma of_char_digit_char: "d < 10 \<Longrightarrow> (of_char (digit_char d) :: nat) = 48 + d"
  by (simp add: digit_char_def)

lemma digit_value_digit_char: "d < 10 \<Longrightarrow> digit_value (digit_char d) = Some d"
  by (simp add: digit_value_def of_char_digit_char)

lemma isRadixDigit_digit_char: "d < 10 \<Longrightarrow> isRadixDigit 10 (digit_char d)"
  by (simp add: isRadixDigit_def digit_value_digit_char)

lemma not_isWhiteSpace_digit_char: "d < 10 \<Longrightarrow> \<not> isWhiteSpace (digit_char d)"
  by (simp add: isWhiteSpace_def of_char_digit_char)

lemma nat_digits_all: "list_all isDecimalDigit (nat_digits n)"
proof (induction n rule: nat_digits.induct)
  case (1 n)
  show ?case
  proof (cases "n < 10")
    case True
    then have "isDecimalDigit (digit_char n)"
      unfolding isDecimalDigit_def by (intro exI [of _ n]) simp
    with True show ?thesis by (subst nat_digits.simps) simp
  next
    case False
    have "isDecimalDigit (digit_char (n mod 10))"
      unfolding isDecimalDigit_def by (rule exI [of _ "n mod 10"]) simp
    with False 1 show ?thesis
      by (subst nat_digits.simps) simp
  qed
qed

lemma nat_digits_nonempty: "nat_digits n \<noteq> []"
  by (subst nat_digits.simps) simp

lemma digits_value_snoc: "digits_value r (ds @ [c]) = digits_value r ds * r + the (digit_value c)"
  by (simp add: digits_value_def)

lemma digits_value_nat_digits: "digits_value 10 (nat_digits n) = n"
proof (induction n rule: nat_digits.induct)
  case (1 n)
  show ?case
  proof (cases "n < 10")
    case True
    then show ?thesis
      by (subst nat_digits.simps) (simp add: digits_value_def digit_value_digit_char)
  next
    case False
    with 1 show ?thesis
      by (subst nat_digits.simps) (simp add: digits_value_snoc digit_value_digit_char)
  qed
qed

lemma takeWhile_all: "list_all P xs \<Longrightarrow> takeWhile P xs = xs"
  by (induction xs) auto

lemma isDecimalDigit_radix: "isDecimalDigit c \<Longrightarrow> isRadixDigit 10 c"
  by (auto simp: isDecimalDigit_def isRadixDigit_digit_char)

lemma isDecimalDigit_code: "isDecimalDigit c \<Longrightarrow> 48 \<le> (of_char c :: nat) \<and> (of_char c :: nat) \<le> 57"
  by (auto simp: isDecimalDigit_def of_char_digit_char)

lemma parseInt_digits:
  assumes "list_all isDecimalDigit ds" "ds \<noteq> []"
  shows "parseInt ds = Some (int (digits_value 10 ds))"
proof -
  obtain c cs where ds: "ds = c # cs" using assms(2) by (cases ds) auto
  have c: "isDecimalDigit c" using assms(1) ds by simp
  have cc: "48 \<le> (of_char c :: nat)" "(of_char c :: nat) \<le> 57"
    using isDecimalDigit_code [OF c] by auto
  have nws: "\<not> isWhiteSpace c" using cc by (auto simp: isWhiteSpace_def)
  have nm: "c \<noteq> CHR ''-''" "c \<noteq> CHR ''+''" using cc by auto
  have nohex: "\<not> startsWith ds ''0x''" "\<not> startsWith ds ''0X''"
  proof -
    show "\<not> startsWith ds ''0x''"
    proof (cases cs)
      case Nil then show ?thesis using ds by simp
    next
      case (Cons e es)
      then have "isDecimalDigit e" using assms(1) ds by simp
      then have "e \<noteq> CHR ''x''" using isDecimalDigit_code [of e] by auto
      then show ?thesis using ds Cons by simp
    qed
    show "\<not> startsWith ds ''0X''"
    proof (cases cs)
      case Nil then show ?thesis using ds by simp
    next
      case (Cons e es)
      then have "isDecimalDigit e" using assms(1) ds by simp
      then have "e \<noteq> CHR ''X''" using isDecimalDigit_code [of e] by auto
      then show ?thesis using ds Cons by simp
    qed
  qed
  have dw: "dropWhile isWhiteSpace ds = ds" using nws ds by simp
  have sw: "\<not> startsWith ds ''-''" "\<not> startsWith ds ''+''" using nm ds by auto
  have tw: "takeWhile (isRadixDigit 10) ds = ds"
    by (rule takeWhile_all) (use assms(1) in \<open>auto simp: list_all_iff isDecimalDigit_radix\<close>)
  show ?thesis
    using sw nohex assms(2) by (simp add: parseInt_def Let_def dw tw)
qed

lemma parseInt_minus_digits:
  assumes "list_all isDecimalDigit ds" "ds \<noteq> []"
  shows "parseInt (CHR ''-'' # ds) = Some (- int (digits_value 10 ds))"
proof -
  obtain c cs where ds: "ds = c # cs" using assms(2) by (cases ds) auto
  have c: "isDecimalDigit c" using assms(1) ds by simp
  have nohex: "\<not> startsWith ds ''0x''" "\<not> startsWith ds ''0X''"
  proof -
    show "\<not> startsWith ds ''0x''"
    proof (cases cs)
      case Nil then show ?thesis using ds by simp
    next
      case (Cons e es)
      then have "isDecimalDigit e" using assms(1) ds by simp
      then have "e \<noteq> CHR ''x''" using isDecimalDigit_code [of e] by auto
      then show ?thesis using ds Cons by simp
    qed
    show "\<not> startsWith ds ''0X''"
    proof (cases cs)
      case Nil then show ?thesis using ds by simp
    next
      case (Cons e es)
      then have "isDecimalDigit e" using assms(1) ds by simp
      then have "e \<noteq> CHR ''X''" using isDecimalDigit_code [of e] by auto
      then show ?thesis using ds Cons by simp
    qed
  qed
  have nws: "\<not> isWhiteSpace CHR ''-''" by (simp add: isWhiteSpace_def)
  have tw: "takeWhile (isRadixDigit 10) ds = ds"
    by (rule takeWhile_all) (use assms(1) in \<open>auto simp: list_all_iff isDecimalDigit_radix\<close>)
  show ?thesis
    using nws nohex assms(2) by (simp add: parseInt_def Let_def tw)
qed

lemma parseInt_toString: "parseInt (toString n) = Some n"
proof (cases "n < 0")
  case True
  then show ?thesis
    using parseInt_minus_digits [OF nat_digits_all nat_digits_nonempty, of "nat (- n)"]
    by (simp add: toString_def digits_value_nat_digits)
next
  case False
  then show ?thesis
    using parseInt_digits [OF nat_digits_all nat_digits_nonempty, of "nat n"]
    by (simp add: toString_def digits_value_nat_digits)
qed

subsection \<open>The sort is a stable sort\<close>

lemma mset_sort_insert: "mset (sort_insert cmp x xs) = add_mset x (mset xs)"
  by (induction xs) simp_all

lemma mset_js_sort: "mset (js_sort cmp xs) = mset xs"
  by (induction xs) (simp_all add: mset_sort_insert)

lemma set_js_sort: "set (js_sort cmp xs) = set xs"
  using mset_js_sort [of cmp xs] by (metis set_mset_mset)

lemma length_js_sort: "length (js_sort cmp xs) = length xs"
  using mset_js_sort [of cmp xs] by (metis size_mset)

lemma filter_sort_insert:
  assumes "\<And>y. P x \<Longrightarrow> P y \<Longrightarrow> cmp x y \<le> 0"
  shows "filter P (sort_insert cmp x ys) = (if P x then x # filter P ys else filter P ys)"
  using assms by (induction ys) auto

lemma js_sort_stable:
  assumes "\<And>x y. P x \<Longrightarrow> P y \<Longrightarrow> cmp x y \<le> 0"
  shows "filter P (js_sort cmp xs) = filter P xs"
proof (induction xs)
  case Nil
  show ?case by simp
next
  case (Cons x xs)
  have "filter P (sort_insert cmp x (js_sort cmp xs)) =
        (if P x then x # filter P (js_sort cmp xs) else filter P (js_sort cmp xs))"
    by (rule filter_sort_insert) (rule assms)
  with Cons show ?case by simp
qed

lemma set_sort_insert: "set (sort_insert cmp x xs) = insert x (set xs)"
  by (induction xs) auto

lemma sorted_wrt_sort_insert:
  assumes total: "\<And>a b. cmp a b \<le> 0 \<or> cmp b a \<le> 0"
    and trans: "\<And>a b c. cmp a b \<le> 0 \<Longrightarrow> cmp b c \<le> 0 \<Longrightarrow> cmp a c \<le> 0"
    and "sorted_wrt (\<lambda>a b. cmp a b \<le> 0) ys"
  shows "sorted_wrt (\<lambda>a b. cmp a b \<le> 0) (sort_insert cmp x ys)"
  using assms(3)
proof (induction ys)
  case Nil
  show ?case by simp
next
  case (Cons y ys)
  show ?case
  proof (cases "cmp x y \<le> 0")
    case True
    have "\<forall>z\<in>set ys. cmp x z \<le> 0"
      using Cons.prems True trans by auto
    with True Cons.prems show ?thesis by simp
  next
    case False
    then have yx: "cmp y x \<le> 0" using total [of x y] by simp
    have "sorted_wrt (\<lambda>a b. cmp a b \<le> 0) (sort_insert cmp x ys)"
      using Cons by simp
    with False yx Cons.prems show ?thesis by (simp add: set_sort_insert)
  qed
qed

lemma sorted_wrt_js_sort:
  assumes total: "\<And>a b. cmp a b \<le> 0 \<or> cmp b a \<le> 0"
    and trans: "\<And>a b c. cmp a b \<le> 0 \<Longrightarrow> cmp b c \<le> 0 \<Longrightarrow> cmp a c \<le> 0"
  shows "sorted_wrt (\<lambda>a b. cmp a b \<le> 0) (js_sort cmp xs)"
proof (induction xs)
  case Nil
  show ?case by simp
next
  case (Cons x xs)
  then show ?case
    using sorted_wrt_sort_insert [of cmp "js_sort cmp xs" x] total trans by simp
qed

lemma js_sort_eq_sort_key:
  fixes f :: "'a \<Rightarrow> 'k::linorder"
  assumes "\<And>x y. cmp x y \<le> 0 \<longleftrightarrow> f x \<le> f y"
  shows "js_sort cmp xs = sort_key f xs"
proof -
  have ins: "sort_insert cmp x ys = insort_key f x ys" for x ys
    by (induction ys) (simp_all add: assms)
  show ?thesis by (induction xs) (simp_all add: ins)
qed

subsection \<open>The comparator of \<^verbatim>\<open>sortBy\<close> is consistent\<close>

lemma sortValue_number: "sortValue ''number'' a = Num (number a)"
  by (simp add: sortValue_def parseInt_toString)

lemma sortValue_updated: "sortValue ''updated'' a = Num (updated a)"
  by (simp add: sortValue_def)

lemma js_less_sortValue:
  "js_less (sortValue fld a) (sortValue fld b) \<longleftrightarrow>
     sortKey (sortValue fld a) < sortKey (sortValue fld b)"
proof (cases "fld = ''updated'' \<or> fld = ''number''")
  case True
  then show ?thesis
    by (auto simp: sortValue_number sortValue_updated)
next
  case False
  then show ?thesis
    by (simp add: sortValue_def getField_def)
qed

lemma compareItems_le:
  "compareItems cs fld a b \<le> 0 \<longleftrightarrow>
     (if ascending cs then sortKey (sortValue fld a) \<le> sortKey (sortValue fld b)
      else sortKey (sortValue fld b) \<le> sortKey (sortValue fld a))"
  by (auto simp: compareItems_def Let_def js_less_sortValue)

lemma compareItems_eq_0:
  "compareItems cs fld a b = 0 \<longleftrightarrow> sortKey (sortValue fld a) = sortKey (sortValue fld b)"
  by (auto simp: compareItems_def Let_def js_less_sortValue)

lemma compareItems_total: "compareItems cs fld a b \<le> 0 \<or> compareItems cs fld b a \<le> 0"
  by (auto simp: compareItems_le)

lemma compareItems_trans:
  "compareItems cs fld a b \<le> 0 \<Longrightarrow> compareItems cs fld b c \<le> 0 \<Longrightarrow> compareItems cs fld a c \<le> 0"
  by (auto simp: compareItems_le split: if_splits)

subsection \<open>Dates in a zone with a fixed offset\<close>

lemma setDate_back_fixedZone: "setDate_back (fixedZone off) t n = t - n * msPerDay"
  by (simp add: setDate_back_def UTC_def LocalTime_def fixedZone_def)

section \<open>Properties of the filter and sort engine\<close>

text \<open>
  Claim C7. For every current sort state, \<^verbatim>\<open>sortBy\<close> invoked with the field of the
  current sort keeps the field and flips the ascending flag; invoked with a different field
  it sets the field to the new one and the ascending flag to false.
\<close>
theorem sortBy_toggle:
  "(field (currentSort s) = fld \<longrightarrow>
      currentSort (sortBy fld s) = \<lparr>field = fld, ascending = \<not> ascending (currentSort s)\<rparr>) \<and>
   (field (currentSort s) \<noteq> fld \<longrightarrow>
      currentSort (sortBy fld s) = \<lparr>field = fld, ascending = False\<rparr>)"
  by (simp add: sortBy_def renderTable_def Let_def)

theorem sortBy_toggle_witness:
  "currentSort (sortBy ''updated'' (StaleDashboard emptyDocument))
     = \<lparr>field = ''updated'', ascending = True\<rparr> \<and>
   currentSort (sortBy ''number'' (StaleDashboard emptyDocument))
     = \<lparr>field = ''number'', ascending = False\<rparr>"
  using sortBy_toggle [of "StaleDashboard emptyDocument" "''updated''"]
    sortBy_toggle [of "StaleDashboard emptyDocument" "''number''"]
  by (simp add: StaleDashboard_def)

lemma filteredItems_sortBy:
  "filteredItems (sortBy fld s) =
     js_sort (compareItems (currentSort (sortBy fld s)) fld) (filteredItems s)"
  by (simp add: sortBy_def renderTable_def Let_def)

text \<open>
  Claim C8. \<^verbatim>\<open>sortBy\<close> is stable: for every item \<open>k\<close>, the items that tie with
  \<open>k\<close> under the comparator of the sort (it returns 0) stand in the sorted list in the same
  relative order as in the list before the sort; the sorted list is a rearrangement of the
  list before the sort.
\<close>
theorem sortBy_stable:
  "filter (\<lambda>x. compareItems (currentSort (sortBy fld s)) fld k x = 0) (filteredItems (sortBy fld s))
     = filter (\<lambda>x. compareItems (currentSort (sortBy fld s)) fld k x = 0) (filteredItems s)
   \<and> mset (filteredItems (sortBy fld s)) = mset (filteredItems s)"
proof -
  let ?cs = "currentSort (sortBy fld s)"
  have tie: "compareItems ?cs fld x y \<le> 0"
    if "compareItems ?cs fld k x = 0" "compareItems ?cs fld k y = 0" for x y
    using that by (simp add: compareItems_eq_0 compareItems_le)
  have "filter (\<lambda>x. compareItems ?cs fld k x = 0) (js_sort (compareItems ?cs fld) (filteredItems s))
        = filter (\<lambda>x. compareItems ?cs fld k x = 0) (filteredItems s)"
    by (rule js_sort_stable) (rule tie)
  then show ?thesis
    by (simp add: filteredItems_sortBy mset_js_sort)
qed

theorem sortBy_stable_witness:
  "filter (\<lambda>x. number x = 5)
     (filteredItems (sortBy ''number''
        ((StaleDashboard emptyDocument)
           \<lparr>currentSort := \<lparr>field = ''number'', ascending = False\<rparr>,
            filteredItems := [exampleItem ''issue'' 5 ''first'', exampleItem ''pr'' 5 ''second'',
                              exampleItem ''issue'' 1 ''third'']\<rparr>)))
     = [exampleItem ''issue'' 5 ''first'', exampleItem ''pr'' 5 ''second'']"
proof -
  let ?a = "exampleItem ''issue'' 5 ''first''"
  let ?s = "(StaleDashboard emptyDocument)
           \<lparr>currentSort := \<lparr>field = ''number'', ascending = False\<rparr>,
            filteredItems := [?a, exampleItem ''pr'' 5 ''second'', exampleItem ''issue'' 1 ''third'']\<rparr>"
  have tie: "(compareItems cs ''number'' ?a x = 0) = (number x = 5)" for cs x
    by (auto simp: compareItems_eq_0 sortValue_number exampleItem_def)
  from sortBy_stable [of "''number''" ?s ?a]
  have "filter (\<lambda>x. number x = 5) (filteredItems (sortBy ''number'' ?s))
          = filter (\<lambda>x. number x = 5) (filteredItems ?s)"
    unfolding tie by blast
  then show ?thesis
    by (simp add: exampleItem_def)
qed

lemma compareItems_number_le:
  "compareItems cs ''number'' a b \<le> 0 \<longleftrightarrow>
     (if ascending cs then number a \<le> number b else number b \<le> number a)"
  by (auto simp: compareItems_le sortValue_number)

lemma sorted_wrt_sortBy:
  "sorted_wrt (\<lambda>a b. compareItems (currentSort (sortBy fld s)) fld a b \<le> 0)
     (filteredItems (sortBy fld s))"
  unfolding filteredItems_sortBy
  by (rule sorted_wrt_js_sort) (rule compareItems_total, rule compareItems_trans)

text \<open>
  Claim C9. Sorting by \<^verbatim>\<open>number\<close> compares integers: whenever the sort is ascending,
  the numbers of the sorted items are in ascending numeric order, and two items numbered
  2 and 10 come out as 2, 10 whatever order they had before. Compared as strings the two
  numbers would be ordered the other way round.
\<close>
theorem sortBy_number_numeric:
  assumes "ascending (currentSort (sortBy ''number'' s))"
  shows "sorted (map number (filteredItems (sortBy ''number'' s))) \<and>
         (number a = 2 \<and> number b = 10 \<and> (filteredItems s = [a, b] \<or> filteredItems s = [b, a])
            \<longrightarrow> filteredItems (sortBy ''number'' s) = [a, b]) \<and>
         toString 10 < toString 2"
proof -
  let ?cs = "currentSort (sortBy ''number'' s)"
  have "sorted_wrt (\<lambda>x y. number x \<le> number y) (filteredItems (sortBy ''number'' s))"
    using sorted_wrt_sortBy [of "''number''" s] assms
    by (simp add: compareItems_number_le)
  then have 1: "sorted (map number (filteredItems (sortBy ''number'' s)))"
    by (simp add: sorted_map)
  have 2: "filteredItems (sortBy ''number'' s) = [a, b]"
    if "number a = 2" "number b = 10" "filteredItems s = [a, b] \<or> filteredItems s = [b, a]"
    using that assms
    by (auto simp: filteredItems_sortBy compareItems_number_le)
  have 3: "toString 10 < toString 2"
    by code_simp
  from 1 2 3 show ?thesis by blast
qed

theorem sortBy_number_numeric_witness:
  "ascending (currentSort (sortBy ''number''
      ((StaleDashboard emptyDocument)
         \<lparr>currentSort := \<lparr>field = ''number'', ascending = False\<rparr>,
          filteredItems := [exampleItem ''issue'' 10 ''ten'', exampleItem ''pr'' 2 ''two'']\<rparr>))) \<and>
   map number (filteredItems (sortBy ''number''
      ((StaleDashboard emptyDocument)
         \<lparr>currentSort := \<lparr>field = ''number'', ascending = False\<rparr>,
          filteredItems := [exampleItem ''issue'' 10 ''ten'', exampleItem ''pr'' 2 ''two'']\<rparr>)))
     = [2, 10]"
proof -
  let ?s = "(StaleDashboard emptyDocument)
         \<lparr>currentSort := \<lparr>field = ''number'', ascending = False\<rparr>,
          filteredItems := [exampleItem ''issue'' 10 ''ten'', exampleItem ''pr'' 2 ''two'']\<rparr>"
  have asc: "ascending (currentSort (sortBy ''number'' ?s))"
    by (simp add: sortBy_def renderTable_def Let_def)
  have "filteredItems (sortBy ''number'' ?s)
          = [exampleItem ''pr'' 2 ''two'', exampleItem ''issue'' 10 ''ten'']"
    using sortBy_number_numeric [OF asc, of "exampleItem ''pr'' 2 ''two''" "exampleItem ''issue'' 10 ''ten''"]
    by (simp add: exampleItem_def)
  with asc show ?thesis by (simp add: exampleItem_def)
qed

lemma filteredItems_applyFilters:
  "filteredItems (applyFilters s) =
     filter (passesFilters (repo_filter (document s)) (type_filter (document s))
               (toLowerCase (search_filter (document s)))) (staleItems s)"
  by (simp add: applyFilters_def renderTable_def Let_def)

text \<open>
  Claim C10. The output of \<^verbatim>\<open>applyFilters\<close> is a subsequence of the store, in store
  order; it does not depend on the current sort state, and a sort done before the filter
  change is not applied again; \<^verbatim>\<open>applyFilters\<close> leaves the sort state as it is.
\<close>
theorem applyFilters_keeps_store_order:
  "subseq (filteredItems (applyFilters s)) (staleItems s) \<and>
   filteredItems (applyFilters (s\<lparr>currentSort := cs\<rparr>)) = filteredItems (applyFilters s) \<and>
   filteredItems (applyFilters (sortBy fld s)) = filteredItems (applyFilters s) \<and>
   currentSort (applyFilters s) = currentSort s"
proof -
  have 1: "subseq (filteredItems (applyFilters s)) (staleItems s)"
    by (simp add: filteredItems_applyFilters)
  have 2: "filteredItems (applyFilters (s\<lparr>currentSort := cs\<rparr>)) = filteredItems (applyFilters s)"
    by (simp add: filteredItems_applyFilters)
  have 3: "filteredItems (applyFilters (sortBy fld s)) = filteredItems (applyFilters s)"
    by (simp add: filteredItems_applyFilters sortBy_def renderTable_def Let_def)
  have 4: "currentSort (applyFilters s) = currentSort s"
    by (simp add: applyFilters_def renderTable_def Let_def)
  from 1 2 3 4 show ?thesis by blast
qed

lemma toLowerCase_Nil_iff: "toLowerCase q = [] \<longleftrightarrow> q = []"
  by (simp add: toLowerCase_def)

lemma toLowerCase_Nil: "toLowerCase [] = []"
  by (simp add: toLowerCase_def)

theorem applyFilters_keeps_store_order_witness:
  "filteredItems (applyFilters (sortBy ''number''
      ((StaleDashboard emptyDocument)
         \<lparr>staleItems := [exampleItem ''issue'' 5 ''first'', exampleItem ''pr'' 1 ''second'']\<rparr>)))
     = [exampleItem ''issue'' 5 ''first'', exampleItem ''pr'' 1 ''second'']"
proof -
  let ?s = "(StaleDashboard emptyDocument)
         \<lparr>staleItems := [exampleItem ''issue'' 5 ''first'', exampleItem ''pr'' 1 ''second'']\<rparr>"
  from applyFilters_keeps_store_order [of ?s _ "''number''"]
  have "filteredItems (applyFilters (sortBy ''number'' ?s)) = filteredItems (applyFilters ?s)"
    by blast
  then show ?thesis
    by (simp add: filteredItems_applyFilters StaleDashboard_def emptyDocument_def
        passesFilters_def toLowerCase_Nil)
qed

lemma filteredItems_withFilters:
  "filteredItems (applyFilters (withFilters r t q s)) =
     filter (passesFilters r t (toLowerCase q)) (staleItems s)"
  by (simp add: filteredItems_applyFilters withFilters_def)

lemma passesFilters_conj:
  "passesFilters r t q x \<longleftrightarrow>
     passesFilters r [] [] x \<and> passesFilters [] t [] x \<and> passesFilters [] [] q x"
  by (simp add: passesFilters_def)

text \<open>
  Claim C5. The result of \<^verbatim>\<open>applyFilters\<close> under the three filter values is the
  intersection of the results under each value alone, as a set and as a list in store order;
  with all three values empty the result is the whole store, unchanged; a value that is not
  empty filters by equality of the repository key, by equality of the type, and by
  case-insensitive containment in the title.
\<close>
theorem applyFilters_conjunction:
  "set (filteredItems (applyFilters (withFilters r t q s)))
     = set (filteredItems (applyFilters (withFilters r [] [] s)))
       \<inter> set (filteredItems (applyFilters (withFilters [] t [] s)))
       \<inter> set (filteredItems (applyFilters (withFilters [] [] q s))) \<and>
   filteredItems (applyFilters (withFilters r t q s))
     = filter (\<lambda>x. x \<in> set (filteredItems (applyFilters (withFilters r [] [] s)))
                 \<and> x \<in> set (filteredItems (applyFilters (withFilters [] t [] s)))
                 \<and> x \<in> set (filteredItems (applyFilters (withFilters [] [] q s))))
         (staleItems s) \<and>
   filteredItems (applyFilters (withFilters [] [] [] s)) = staleItems s \<and>
   (r \<noteq> [] \<longrightarrow> filteredItems (applyFilters (withFilters r [] [] s))
                  = filter (\<lambda>x. repo x = r) (staleItems s)) \<and>
   (t \<noteq> [] \<longrightarrow> filteredItems (applyFilters (withFilters [] t [] s))
                  = filter (\<lambda>x. type x = t) (staleItems s)) \<and>
   (q \<noteq> [] \<longrightarrow> filteredItems (applyFilters (withFilters [] [] q s))
                  = filter (\<lambda>x. includes_str (toLowerCase (title x)) (toLowerCase q)) (staleItems s))"
proof -
  let ?A = "filteredItems (applyFilters (withFilters r [] [] s))"
  let ?B = "filteredItems (applyFilters (withFilters [] t [] s))"
  let ?C = "filteredItems (applyFilters (withFilters [] [] q s))"
  have A: "x \<in> set ?A \<longleftrightarrow> x \<in> set (staleItems s) \<and> passesFilters r [] [] x" for x
    by (simp add: filteredItems_withFilters toLowerCase_def)
  have B: "x \<in> set ?B \<longleftrightarrow> x \<in> set (staleItems s) \<and> passesFilters [] t [] x" for x
    by (simp add: filteredItems_withFilters toLowerCase_def)
  have C: "x \<in> set ?C \<longleftrightarrow> x \<in> set (staleItems s) \<and> passesFilters [] [] (toLowerCase q) x" for x
    by (simp add: filteredItems_withFilters)
  have 1: "set (filteredItems (applyFilters (withFilters r t q s))) = set ?A \<inter> set ?B \<inter> set ?C"
    using passesFilters_conj [of r t "toLowerCase q"]
    by (auto simp: filteredItems_withFilters toLowerCase_Nil)
  have 2: "filteredItems (applyFilters (withFilters r t q s))
             = filter (\<lambda>x. x \<in> set ?A \<and> x \<in> set ?B \<and> x \<in> set ?C) (staleItems s)"
    unfolding filteredItems_withFilters [of r t q]
    by (rule filter_cong [OF refl])
       (use passesFilters_conj [of r t "toLowerCase q"] in \<open>simp add: A B C\<close>)
  have 3: "filteredItems (applyFilters (withFilters [] [] [] s)) = staleItems s"
    unfolding filteredItems_withFilters
    by (rule trans [OF filter_cong [OF refl] filter_True [of _ "\<lambda>x. True"]])
       (simp_all add: passesFilters_def toLowerCase_Nil)
  have 4: "r \<noteq> [] \<longrightarrow> ?A = filter (\<lambda>x. repo x = r) (staleItems s)"
    unfolding filteredItems_withFilters
    by (rule impI, rule filter_cong [OF refl]) (simp add: passesFilters_def toLowerCase_Nil)
  have 5: "t \<noteq> [] \<longrightarrow> ?B = filter (\<lambda>x. type x = t) (staleItems s)"
    unfolding filteredItems_withFilters
    by (rule impI, rule filter_cong [OF refl]) (simp add: passesFilters_def toLowerCase_Nil)
  have 6: "q \<noteq> [] \<longrightarrow> ?C = filter (\<lambda>x. includes_str (toLowerCase (title x)) (toLowerCase q)) (staleItems s)"
    unfolding filteredItems_withFilters
    by (rule impI, rule filter_cong [OF refl]) (simp add: passesFilters_def toLowerCase_Nil_iff)
  from 1 2 3 4 5 6 show ?thesis by blast
qed

theorem applyFilters_conjunction_witness:
  "filteredItems (applyFilters (withFilters ''konveyor/operator'' ''pr'' ''FIX''
      ((StaleDashboard emptyDocument)
         \<lparr>staleItems := [exampleItem ''issue'' 1 ''Fix the build'',
                          exampleItem ''pr'' 2 ''Bump deps'',
                          exampleItem ''pr'' 3 ''A fix for the docs'']\<rparr>)))
     = [exampleItem ''pr'' 3 ''A fix for the docs'']"
proof -
  let ?s = "(StaleDashboard emptyDocument)
         \<lparr>staleItems := [exampleItem ''issue'' 1 ''Fix the build'',
                          exampleItem ''pr'' 2 ''Bump deps'',
                          exampleItem ''pr'' 3 ''A fix for the docs'']\<rparr>"
  have r: "''konveyor/operator'' \<noteq> []" and t: "''pr'' \<noteq> []" and q: "''FIX'' \<noteq> []"
    by simp_all
  note c = applyFilters_conjunction [of "''konveyor/operator''" "''pr''" "''FIX''" ?s]
  have A: "filteredItems (applyFilters (withFilters ''konveyor/operator'' [] [] ?s))
             = filter (\<lambda>x. repo x = ''konveyor/operator'') (staleItems ?s)"
    using c r by blast
  have B: "filteredItems (applyFilters (withFilters [] ''pr'' [] ?s))
             = filter (\<lambda>x. type x = ''pr'') (staleItems ?s)"
    using c t by blast
  have C: "filteredItems (applyFilters (withFilters [] [] ''FIX'' ?s))
             = filter (\<lambda>x. includes_str (toLowerCase (title x)) (toLowerCase ''FIX'')) (staleItems ?s)"
    using c q by blast
  have low: "toLowerCase ''FIX'' = ''fix''" "toLowerCase ''Fix the build'' = ''fix the build''"
    "toLowerCase ''Bump deps'' = ''bump deps''" "toLowerCase ''A fix for the docs'' = ''a fix for the docs''"
    by code_simp+
  have "filteredItems (applyFilters (withFilters ''konveyor/operator'' ''pr'' ''FIX'' ?s))
     = filter (\<lambda>x. x \<in> set (filteredItems (applyFilters (withFilters ''konveyor/operator'' [] [] ?s)))
                 \<and> x \<in> set (filteredItems (applyFilters (withFilters [] ''pr'' [] ?s)))
                 \<and> x \<in> set (filteredItems (applyFilters (withFilters [] [] ''FIX'' ?s))))
         (staleItems ?s)"
    using c by blast
  then show ?thesis
    unfolding A B C by (simp add: exampleItem_def low)
qed

section \<open>Properties of the source adapter and the load cycle\<close>

lemma normalizeItem_type:
  "normalizeItem org0 repo0 item = Inr it \<Longrightarrow>
     type it = (if truthy (pull_request item) then ''pr'' else ''issue'')"
  by (auto simp: normalizeItem_def split: option.splits)

lemma pushItems_Normal_types:
  "pushItems org0 repo0 raws acc = Normal out \<Longrightarrow>
     map type out = map type acc @ map (\<lambda>r. if truthy (pull_request r) then ''pr'' else ''issue'') raws"
proof (induction raws arbitrary: acc)
  case Nil
  then show ?case by simp
next
  case (Cons r raws)
  then show ?case
    by (auto split: sum.splits dest: normalizeItem_type)
qed

lemma pushItems_acc:
  "finalState (pushItems org0 repo0 raws acc) = acc @ finalState (pushItems org0 repo0 raws [])"
proof (induction raws arbitrary: acc)
  case Nil
  show ?case by simp
next
  case (Cons r raws)
  show ?case
  proof (cases "normalizeItem org0 repo0 r")
    case (Inl e)
    then show ?thesis by simp
  next
    case (Inr it)
    then show ?thesis
      using Cons.IH [of "acc @ [it]"] Cons.IH [of "[it]"] by simp
  qed
qed

lemma pushItems_types_prefix:
  "map type (finalState (pushItems org0 repo0 raws []))
     = map (\<lambda>r. if truthy (pull_request r) then ''pr'' else ''issue'')
         (take (length (finalState (pushItems org0 repo0 raws []))) raws)"
proof (induction raws)
  case Nil
  show ?case by simp
next
  case (Cons r raws)
  show ?case
  proof (cases "normalizeItem org0 repo0 r")
    case (Inl e)
    then show ?thesis by simp
  next
    case (Inr it)
    have "finalState (pushItems org0 repo0 (r # raws) [])
            = it # finalState (pushItems org0 repo0 raws [])"
      using Inr pushItems_acc [of org0 repo0 raws "[it]"] by simp
    then show ?thesis
      using Cons.IH normalizeItem_type [OF Inr] by simp
  qed
qed

text \<open>
  Claim C6. A record of the listing is normalized to type \<^verbatim>\<open>pr\<close> exactly when its
  pull-request marker is truthy, and to type \<^verbatim>\<open>issue\<close> otherwise; so are all the items
  pushed for a listing, also the ones pushed before a record of the listing throws.
\<close>
theorem normalizeItem_kind:
  "(normalizeItem org0 repo0 item = Inr it \<longrightarrow>
      (type it = ''pr'' \<longleftrightarrow> truthy (pull_request item)) \<and>
      (type it = ''issue'' \<longleftrightarrow> \<not> truthy (pull_request item))) \<and>
   (pushItems org0 repo0 raws [] = Normal out \<longrightarrow>
      map type out = map (\<lambda>r. if truthy (pull_request r) then ''pr'' else ''issue'') raws) \<and>
   map type (finalState (pushItems org0 repo0 raws []))
     = map (\<lambda>r. if truthy (pull_request r) then ''pr'' else ''issue'')
         (take (length (finalState (pushItems org0 repo0 raws []))) raws)"
  using normalizeItem_type [of org0 repo0 item it]
    pushItems_Normal_types [of org0 repo0 raws "[]" out]
    pushItems_types_prefix [of org0 repo0 raws]
  by auto

theorem normalizeItem_kind_witness:
  "map type (finalState (pushItems ''konveyor'' ''operator''
      [exampleRaw JObject 1, exampleRaw JUndefined 2, exampleRaw JNull 3] []))
     = [''pr'', ''issue'', ''issue'']"
proof -
  let ?raws = "[exampleRaw JObject 1, exampleRaw JUndefined 2, exampleRaw JNull 3]"
  let ?out = "finalState (pushItems ''konveyor'' ''operator'' ?raws [])"
  have out: "pushItems ''konveyor'' ''operator'' ?raws [] = Normal ?out"
    by (simp add: normalizeItem_def exampleRaw_def)
  from normalizeItem_kind [of "''konveyor''" "''operator''" "exampleRaw JObject 1" "exampleItem ''pr'' 1 ''Stale thing''" ?raws ?out]
  have "map type ?out = map (\<lambda>r. if truthy (pull_request r) then ''pr'' else ''issue'') ?raws"
    using out by simp
  then show ?thesis by (simp add: exampleRaw_def)
qed

lemma finalState_case_completion:
  "finalState (case c of Normal x \<Rightarrow> Normal (f x) | Throw e x \<Rightarrow> Throw e (f x)) = f (finalState c)"
  by (cases c) simp_all

lemma finalState_fetchStaleItems_try:
  "finalState (fetchStaleItems_try cfg api org0 repo0 s)
     = s\<lparr>staleItems := staleItems s @ fetchedItems cfg api org0 repo0\<rparr>"
proof (cases "api (issuesRequest cfg org0 repo0)")
  case NetworkError
  then show ?thesis by (simp add: fetchStaleItems_try_def fetchedItems_def)
next
  case (Response status body)
  show ?thesis
  proof (cases "ok status")
    case False
    with Response show ?thesis by (simp add: fetchStaleItems_try_def fetchedItems_def)
  next
    case True
    show ?thesis
    proof (cases body)
      case None
      with Response True show ?thesis by (simp add: fetchStaleItems_try_def fetchedItems_def)
    next
      case (Some b)
      show ?thesis
      proof (cases b)
        case NotAnArray
        with Response True Some show ?thesis
          by (simp add: fetchStaleItems_try_def fetchedItems_def)
      next
        case (IssuesArray issues)
        with Response True Some show ?thesis
          using pushItems_acc [of org0 repo0 issues "staleItems s"]
          by (simp add: fetchStaleItems_try_def fetchedItems_def finalState_case_completion)
      qed
    qed
  qed
qed

lemma fetchStaleItems_Normal:
  "fetchStaleItems cfg api org0 repo0 s
     = Normal (s\<lparr>staleItems := staleItems s @ fetchedItems cfg api org0 repo0\<rparr>)"
proof -
  have "fetchStaleItems cfg api org0 repo0 s
          = Normal (finalState (fetchStaleItems_try cfg api org0 repo0 s))"
    by (cases "fetchStaleItems_try cfg api org0 repo0 s") (simp_all add: fetchStaleItems_def)
  then show ?thesis by (simp add: finalState_fetchStaleItems_try)
qed

lemma fetchedItems_fails:
  "fetchFails api (issuesRequest cfg org0 repo0) \<Longrightarrow> fetchedItems cfg api org0 repo0 = []"
  by (auto simp: fetchFails_def fetchedItems_def split: response.splits)

lemma loadData_loop_Normal:
  "loadData_loop cfg api repos s
     = Normal (s\<lparr>staleItems := staleItems s
                 @ concat (map (\<lambda>(o1, r1). fetchedItems cfg api o1 r1) repos)\<rparr>)"
proof (induction repos arbitrary: s)
  case Nil
  show ?case by simp
next
  case (Cons p repos)
  obtain o1 r1 where p: "p = (o1, r1)" by (cases p)
  show ?case
    unfolding p by (simp add: fetchStaleItems_Normal Cons.IH)
qed

lemma staleItems_applyFilters: "staleItems (applyFilters s) = staleItems s"
  by (simp add: applyFilters_def renderTable_def Let_def)

lemma table_body_applyFilters: "table_body (document (applyFilters s)) \<noteq> ErrorRow"
  by (simp add: applyFilters_def renderTable_def Let_def)

text \<open>
  Claim C1. \<^verbatim>\<open>fetchStaleItems\<close> always returns normally. When the transport fails or
  the status is not a success status it leaves the state as it was. After \<^verbatim>\<open>loadData\<close>
  the store is the concatenation, in configuration order, of what each repository's fetch
  yields on its own on an empty store, so a failing repository contributes nothing and
  removes nothing; the cycle ends in the table, not in the error message.
\<close>
theorem fetchStaleItems_isolates_failures:
  "(\<exists>s'. fetchStaleItems cfg api org0 repo0 s = Normal s') \<and>
   (fetchFails api (issuesRequest cfg org0 repo0) \<longrightarrow>
      fetchStaleItems cfg api org0 repo0 s = Normal s) \<and>
   staleItems (loadData cfg api s)
     = concat (map (\<lambda>(o1, r1).
         staleItems (finalState (fetchStaleItems cfg api o1 r1 (s\<lparr>staleItems := []\<rparr>))))
         (cfg_repositories cfg)) \<and>
   table_body (document (loadData cfg api s)) \<noteq> ErrorRow"
proof -
  have 1: "\<exists>s'. fetchStaleItems cfg api org0 repo0 s = Normal s'"
    by (simp add: fetchStaleItems_Normal)
  have 2: "fetchFails api (issuesRequest cfg org0 repo0) \<longrightarrow>
             fetchStaleItems cfg api org0 repo0 s = Normal s"
    by (simp add: fetchStaleItems_Normal fetchedItems_fails)
  have 3: "staleItems (loadData cfg api s)
     = concat (map (\<lambda>(o1, r1).
         staleItems (finalState (fetchStaleItems cfg api o1 r1 (s\<lparr>staleItems := []\<rparr>))))
         (cfg_repositories cfg))"
    by (simp add: loadData_def loadData_loop_Normal staleItems_applyFilters
        populateRepoFilter_def fetchStaleItems_Normal)
  have 4: "table_body (document (loadData cfg api s)) \<noteq> ErrorRow"
    by (simp add: loadData_def loadData_loop_Normal table_body_applyFilters)
  from 1 2 3 4 show ?thesis by blast
qed

theorem fetchStaleItems_isolates_failures_witness:
  "fetchFails exampleApi (issuesRequest exampleConfig ''konveyor'' ''broken'') \<and>
   map number (staleItems (loadData exampleConfig exampleApi (StaleDashboard emptyDocument))) = [7]"
proof -
  have repos: "cfg_repositories exampleConfig = [(''konveyor'', ''broken''), (''konveyor'', ''operator'')]"
    by (simp add: exampleConfig_def)
  have f: "fetchFails exampleApi (issuesRequest exampleConfig ''konveyor'' ''broken'')"
    by (simp add: fetchFails_def exampleApi_def issuesRequest_def ok_def)
  note c = fetchStaleItems_isolates_failures
    [of exampleConfig exampleApi "''konveyor''" "''broken''" "(StaleDashboard emptyDocument)\<lparr>staleItems := []\<rparr>"]
  have b: "fetchStaleItems exampleConfig exampleApi ''konveyor'' ''broken''
             ((StaleDashboard emptyDocument)\<lparr>staleItems := []\<rparr>)
           = Normal ((StaleDashboard emptyDocument)\<lparr>staleItems := []\<rparr>)"
    using c f by blast
  have g: "staleItems (finalState (fetchStaleItems exampleConfig exampleApi ''konveyor'' ''operator''
             ((StaleDashboard emptyDocument)\<lparr>staleItems := []\<rparr>)))
           = [exampleItem ''pr'' 7 ''Stale thing'']"
    by (simp add: fetchStaleItems_def fetchStaleItems_try_def exampleApi_def issuesRequest_def
        ok_def normalizeItem_def exampleRaw_def exampleItem_def StaleDashboard_def)
  have "staleItems (loadData exampleConfig exampleApi (StaleDashboard emptyDocument))
     = concat (map (\<lambda>(o1, r1).
         staleItems (finalState (fetchStaleItems exampleConfig exampleApi o1 r1
            ((StaleDashboard emptyDocument)\<lparr>staleItems := []\<rparr>))))
         (cfg_repositories exampleConfig))"
    using fetchStaleItems_isolates_failures
      [of exampleConfig exampleApi "''konveyor''" "''broken''" "StaleDashboard emptyDocument"]
    by blast
  then have "staleItems (loadData exampleConfig exampleApi (StaleDashboard emptyDocument))
     = [exampleItem ''pr'' 7 ''Stale thing'']"
    by (simp add: repos b g)
  with f show ?thesis by (simp add: exampleItem_def)
qed

section \<open>Properties of the trend reducer\<close>

subsection \<open>The window filter\<close>

lemma toString_neq_all: "toString n \<noteq> ''all''"
proof (cases "n < 0")
  case True
  then show ?thesis by (simp add: toString_def)
next
  case False
  obtain c cs where ds: "nat_digits (nat n) = c # cs"
    using nat_digits_nonempty [of "nat n"] by (cases "nat_digits (nat n)") auto
  have "isDecimalDigit c"
    using nat_digits_all [of "nat n"] ds by simp
  then have "c \<noteq> CHR ''a''"
    using isDecimalDigit_code [of c] by auto
  with False ds show ?thesis by (simp add: toString_def)
qed

lemma periodData_toString:
  "periodData tz now (toString n) hist
     = filter (\<lambda>d. Date_parse (date d) \<ge> setDate_back tz now n) hist"
  by (simp add: periodData_def toString_neq_all parseInt_toString)

lemma cutoff_arith:
  fixes q r n day :: int
  assumes "0 \<le> r" "r < 86400000"
  shows "(86400000 * q + r - n * 86400000 \<le> day * 86400000) \<longleftrightarrow>
           (q - n < day \<or> (q - n = day \<and> r = 0))"
  using assms by arith

lemma cutoff_calendar:
  "(now - n * msPerDay \<le> Date_parse day) \<longleftrightarrow>
     (toISODate now - n < day \<or> (toISODate now - n = day \<and> now mod msPerDay = 0))"
proof -
  have split: "86400000 * (now div 86400000) + now mod 86400000 = now"
    by (rule mult_div_mod_eq)
  have "(now - n * 86400000 \<le> day * 86400000) \<longleftrightarrow>
          (86400000 * (now div 86400000) + now mod 86400000 - n * 86400000 \<le> day * 86400000)"
    by (simp only: split)
  also have "\<dots> \<longleftrightarrow> (now div 86400000 - n < day \<or>
                  (now div 86400000 - n = day \<and> now mod 86400000 = 0))"
    by (rule cutoff_arith) simp_all
  finally show ?thesis
    by (simp only: msPerDay_def Date_parse_def toISODate_def)
qed

lemma setDate_back_same_offset:
  assumes "offsetAtLocal tz (LocalTime tz now - n * msPerDay) = offsetAtUTC tz now"
  shows "setDate_back tz now n = now - n * msPerDay"
  using assms by (simp add: setDate_back_def UTC_def LocalTime_def)

text \<open>
  Claim C3, as amended. Take a window that is the decimal string of a positive integer
  \<open>n\<close>, and a run in which the offset of local time from UTC at the cutoff (the same
  local wall-clock time \<open>n\<close> days earlier) is the offset in force now, so that no change of
  the clocks lies in between. Then the filter keeps exactly the snapshots whose date, read
  as the instant of midnight UTC of that day, is not before \<open>now\<close> minus \<open>n\<close> times 24
  hours: the snapshots dated after the day \<open>n\<close> days before the current UTC day, and the
  snapshot dated exactly that day only when \<open>now\<close> is midnight UTC to the millisecond.
  For the window \<^verbatim>\<open>all\<close> the series is kept as it is, in its order, in every zone.
\<close>
theorem periodData_window:
  "(0 < n \<and> offsetAtLocal tz (LocalTime tz now - n * msPerDay) = offsetAtUTC tz now \<longrightarrow>
      periodData tz now (toString n) hist
        = filter (\<lambda>d. now - n * msPerDay \<le> Date_parse (date d)) hist \<and>
      periodData tz now (toString n) hist
        = filter (\<lambda>d. toISODate now - n < date d
                       \<or> (toISODate now - n = date d \<and> now mod msPerDay = 0)) hist) \<and>
   periodData tz now ''all'' hist = hist"
proof -
  have 1: "periodData tz now (toString n) hist
             = filter (\<lambda>d. now - n * msPerDay \<le> Date_parse (date d)) hist"
    if "offsetAtLocal tz (LocalTime tz now - n * msPerDay) = offsetAtUTC tz now"
    unfolding periodData_toString setDate_back_same_offset [OF that] ..
  have 2: "filter (\<lambda>d. now - n * msPerDay \<le> Date_parse (date d)) hist
             = filter (\<lambda>d. toISODate now - n < date d
                            \<or> (toISODate now - n = date d \<and> now mod msPerDay = 0)) hist"
    by (rule filter_cong [OF refl]) (simp add: cutoff_calendar)
  have 3: "periodData tz now ''all'' hist = hist"
    by (simp add: periodData_def)
  from 1 2 3 show ?thesis by simp
qed

lemma toString_7: "toString 7 = ''7''"
  by code_simp

text \<open>
  Claim C3 as stated (keep the snapshots dated on or after the day \<open>n\<close> days before
  today) fails at the boundary day. At noon UTC of 2024-04-10 (day 19823) with the window
  \<^verbatim>\<open>7\<close>, the snapshot dated 2024-04-03 (day 19816) satisfies the stated condition and
  is dropped by \<^verbatim>\<open>updateCharts\<close>.
\<close>
theorem periodData_boundary_counterexample:
  "toISODate 1712750400000 - 7 \<le> date (datedSnapshot 19816) \<and>
   periodData (fixedZone 0) 1712750400000 ''7'' [datedSnapshot 19816] = []"
proof -
  have "periodData (fixedZone 0) 1712750400000 (toString 7) [datedSnapshot 19816] = []"
    by (simp add: periodData_toString setDate_back_fixedZone datedSnapshot_def
        Date_parse_def msPerDay_def)
  then show ?thesis
    by (simp add: toString_7 toISODate_def msPerDay_def datedSnapshot_def)
qed

text \<open>
  The amended statement in Europe/London at noon UTC of 2024-04-10 (summer time, as it is
  seven days earlier), with snapshots dated 40, 10, 7 and 1 days earlier: the window
  \<^verbatim>\<open>7\<close> keeps the last one only, the window \<^verbatim>\<open>all\<close> keeps the four in order.
\<close>
theorem periodData_window_witness:
  "(0::int) < 7 \<and>
   offsetAtLocal europeLondon (LocalTime europeLondon 1712750400000 - 7 * msPerDay)
     = offsetAtUTC europeLondon 1712750400000 \<and>
   periodData europeLondon 1712750400000 ''7''
     [datedSnapshot 19783, datedSnapshot 19813, datedSnapshot 19816, datedSnapshot 19822]
     = [datedSnapshot 19822] \<and>
   periodData europeLondon 1712750400000 ''all''
     [datedSnapshot 19783, datedSnapshot 19813, datedSnapshot 19816, datedSnapshot 19822]
     = [datedSnapshot 19783, datedSnapshot 19813, datedSnapshot 19816, datedSnapshot 19822]"
proof -
  let ?hist = "[datedSnapshot 19783, datedSnapshot 19813, datedSnapshot 19816, datedSnapshot 19822]"
  have h: "(0::int) < 7" by simp
  have z: "offsetAtLocal europeLondon (LocalTime europeLondon 1712750400000 - 7 * msPerDay)
             = offsetAtUTC europeLondon 1712750400000"
    by (simp add: europeLondon_def LocalTime_def msPerDay_def)
  note w = periodData_window [of 7 europeLondon 1712750400000 ?hist]
  have "periodData europeLondon 1712750400000 (toString 7) ?hist
          = filter (\<lambda>d. toISODate 1712750400000 - 7 < date d
                         \<or> (toISODate 1712750400000 - 7 = date d
                              \<and> 1712750400000 mod msPerDay = 0)) ?hist"
    using w h z by blast
  then have a: "periodData europeLondon 1712750400000 ''7'' ?hist = [datedSnapshot 19822]"
    by (simp add: toString_7 toISODate_def msPerDay_def datedSnapshot_def)
  have b: "periodData europeLondon 1712750400000 ''all'' ?hist = ?hist"
    using w by blast
  from h z a b show ?thesis by blast
qed

text \<open>
  The statement above leaves out a window that reaches across a change of the clocks.
  There the cutoff is not \<open>now\<close> minus \<open>n\<close> times 24 hours, because
  \<^verbatim>\<open>setDate\<close> keeps the local wall-clock time: in Europe/London at 2024-04-01 23:30 UTC
  the window \<^verbatim>\<open>2\<close> has its cutoff at 2024-03-31 00:30 UTC and drops the snapshot dated
  2024-03-31 (day 19813), which lies less than 48 hours back.
\<close>

lemma toString_2: "toString 2 = ''2''"
  by code_simp

lemma periodData_across_clock_change:
  "periodData europeLondon 1712014200000 ''2'' [datedSnapshot 19813, datedSnapshot 19814]
     = [datedSnapshot 19814] \<and>
   1712014200000 - 2 * msPerDay \<le> Date_parse (date (datedSnapshot 19813))"
proof -
  have c: "setDate_back europeLondon 1712014200000 2 = 1711845000000"
    by (simp add: setDate_back_def UTC_def LocalTime_def europeLondon_def msPerDay_def)
  have "periodData europeLondon 1712014200000 (toString 2)
          [datedSnapshot 19813, datedSnapshot 19814] = [datedSnapshot 19814]"
    by (simp add: periodData_toString c datedSnapshot_def Date_parse_def msPerDay_def)
  then show ?thesis
    by (simp add: toString_2 datedSnapshot_def Date_parse_def msPerDay_def)
qed

subsection \<open>The breakdown\<close>

lemma js_sort_descending:
  "js_sort (\<lambda>a b. r_totalStale b - r_totalStale a) rs = descending rs"
  unfolding descending_def by (rule js_sort_eq_sort_key) auto

lemma breakdownRepos_eq:
  "breakdownRepos rs = take 10 (descending (filter (\<lambda>r. 0 < r_totalStale r) rs))"
  by (simp add: breakdownRepos_def js_sort_descending)

lemma sorted_rev_descending: "sorted (rev (map r_totalStale (descending rs)))"
proof -
  have "sorted (map (\<lambda>r. - r_totalStale r) (descending rs))"
    unfolding descending_def by (rule sorted_sort_key)
  then have "sorted_wrt (\<lambda>a b. r_totalStale b \<le> r_totalStale a) (descending rs)"
    by (simp add: sorted_map)
  then have "sorted_wrt (\<lambda>a b. b \<le> a) (map r_totalStale (descending rs))"
    by (simp add: sorted_wrt_map)
  then show ?thesis
    by (simp add: sorted_wrt_rev)
qed

lemma sorted_rev_take:
  fixes xs :: "int list"
  assumes "sorted (rev xs)"
  shows "sorted (rev (take n xs))"
proof -
  have "sorted_wrt (\<lambda>a b. b \<le> a) xs"
    using assms by (simp add: sorted_wrt_rev)
  then have "sorted_wrt (\<lambda>a b. b \<le> a) (take n xs)"
    by (rule sorted_wrt_take)
  then show ?thesis by (simp add: sorted_wrt_rev)
qed

lemma descending_top:
  assumes "x \<in> set (take n (descending rs))" "y \<in> set (drop n (descending rs))"
  shows "r_totalStale y \<le> r_totalStale x"
proof -
  have "sorted_wrt (\<lambda>a b. r_totalStale b \<le> r_totalStale a) (descending rs)"
    using sorted_sort_key [of "\<lambda>r. - r_totalStale r" rs]
    by (simp add: sorted_map descending_def)
  then have "sorted_wrt (\<lambda>a b. r_totalStale b \<le> r_totalStale a)
               (take n (descending rs) @ drop n (descending rs))"
    by simp
  then show ?thesis
    using assms unfolding sorted_wrt_append by blast
qed

lemma drawnBars_renderBreakdownChart:
  "drawnBars (renderBreakdownChart data s) =
     (if data = [] then []
      else case repositories (last data) of
             None \<Rightarrow> []
           | Some rs \<Rightarrow> map (\<lambda>r. (r_repo r, r_totalStale r)) (breakdownRepos rs))"
proof -
  have d: "(case destroy c of Live d \<Rightarrow> zip (bar_labels d) (bar_data d) | Destroyed d \<Rightarrow> []) = []"
    for c :: "breakdownData chart"
    by (cases c) simp_all
  have z: "zip (map r_repo rs) (map r_totalStale rs) = map (\<lambda>r. (r_repo r, r_totalStale r)) rs"
    for rs :: "repoEntry list"
    by (induction rs) simp_all
  show ?thesis
    by (simp add: renderBreakdownChart_def drawnBars_def Let_def d z split: option.splits)
qed

lemma sorted_last_max:
  fixes xs :: "int list"
  assumes "sorted xs" "x \<in> set xs"
  shows "x \<le> last xs"
  using assms
proof (induction xs)
  case Nil
  then show ?case by simp
next
  case (Cons a xs)
  then show ?case by (cases xs) auto
qed

text \<open>
  Claim C4. The breakdown chart draws nothing when the series is empty or its last
  snapshot has no \<^verbatim>\<open>repositories\<close>; otherwise it draws the bars of
  \<open>breakdownRepos\<close> of the last snapshot's entries, and only the last snapshot matters;
  in a series sorted by date the last snapshot is the most recent one. \<open>breakdownRepos\<close>
  keeps the entries with a positive count, which for counts that are not negative are the
  entries whose count is not 0, sorts them by descending count (stably), and keeps the
  first 10 at most: every entry kept comes from the input with a count other than 0, the
  counts kept are in descending order, and no entry left out by the cut has a larger
  count than an entry kept.
\<close>
theorem renderBreakdownChart_latest_top10:
  "(data = [] \<or> repositories (last data) = None \<longrightarrow>
      drawnBars (renderBreakdownChart data s) = []) \<and>
   (data \<noteq> [] \<and> repositories (last data) = Some rs \<longrightarrow>
      drawnBars (renderBreakdownChart data s)
        = map (\<lambda>r. (r_repo r, r_totalStale r)) (breakdownRepos rs)) \<and>
   (data \<noteq> [] \<longrightarrow> renderBreakdownChart data s = renderBreakdownChart [last data] s) \<and>
   (sorted (map date data) \<longrightarrow> (\<forall>d\<in>set data. date d \<le> date (last data))) \<and>
   breakdownRepos rs = take 10 (descending (filter (\<lambda>r. 0 < r_totalStale r) rs)) \<and>
   ((\<forall>r\<in>set rs. 0 \<le> r_totalStale r) \<longrightarrow>
      breakdownRepos rs = take 10 (descending (filter (\<lambda>r. r_totalStale r \<noteq> 0) rs))) \<and>
   length (breakdownRepos rs) \<le> 10 \<and>
   (\<forall>r\<in>set (breakdownRepos rs). r \<in> set rs \<and> r_totalStale r \<noteq> 0) \<and>
   sorted (rev (map r_totalStale (breakdownRepos rs))) \<and>
   (\<forall>x\<in>set (breakdownRepos rs).
      \<forall>y\<in>set (drop 10 (descending (filter (\<lambda>r. 0 < r_totalStale r) rs))).
        r_totalStale y \<le> r_totalStale x)"
proof -
  let ?pos = "filter (\<lambda>r. 0 < r_totalStale r) rs"
  have 1: "data = [] \<or> repositories (last data) = None \<longrightarrow>
             drawnBars (renderBreakdownChart data s) = []"
    by (auto simp: drawnBars_renderBreakdownChart)
  have 2: "data \<noteq> [] \<and> repositories (last data) = Some rs \<longrightarrow>
      drawnBars (renderBreakdownChart data s)
        = map (\<lambda>r. (r_repo r, r_totalStale r)) (breakdownRepos rs)"
    by (auto simp: drawnBars_renderBreakdownChart)
  have 3: "data \<noteq> [] \<longrightarrow> renderBreakdownChart data s = renderBreakdownChart [last data] s"
    by (simp add: renderBreakdownChart_def)
  have 4: "sorted (map date data) \<longrightarrow> (\<forall>d\<in>set data. date d \<le> date (last data))"
  proof (intro impI ballI)
    fix d assume s: "sorted (map date data)" and d: "d \<in> set data"
    then have "data \<noteq> []" by auto
    then have "last (map date data) = date (last data)" by (simp add: last_map)
    moreover have "date d \<le> last (map date data)"
      using sorted_last_max [OF s] d by simp
    ultimately show "date d \<le> date (last data)" by simp
  qed
  have 5: "breakdownRepos rs = take 10 (descending ?pos)"
    by (rule breakdownRepos_eq)
  have 6: "(\<forall>r\<in>set rs. 0 \<le> r_totalStale r) \<longrightarrow>
      breakdownRepos rs = take 10 (descending (filter (\<lambda>r. r_totalStale r \<noteq> 0) rs))"
  proof
    assume nn: "\<forall>r\<in>set rs. 0 \<le> r_totalStale r"
    have "filter (\<lambda>r. r_totalStale r \<noteq> 0) rs = ?pos"
      by (rule filter_cong [OF refl]) (use nn in force)
    then show "breakdownRepos rs = take 10 (descending (filter (\<lambda>r. r_totalStale r \<noteq> 0) rs))"
      by (simp add: breakdownRepos_eq)
  qed
  have 7: "length (breakdownRepos rs) \<le> 10"
    by (simp add: breakdownRepos_eq)
  have 8: "\<forall>r\<in>set (breakdownRepos rs). r \<in> set rs \<and> r_totalStale r \<noteq> 0"
  proof
    fix r assume "r \<in> set (breakdownRepos rs)"
    then have "r \<in> set (descending ?pos)"
      unfolding breakdownRepos_eq by (rule in_set_takeD)
    then have "r \<in> set ?pos" by (simp add: descending_def)
    then show "r \<in> set rs \<and> r_totalStale r \<noteq> 0" by auto
  qed
  have 9: "sorted (rev (map r_totalStale (breakdownRepos rs)))"
    unfolding breakdownRepos_eq take_map [symmetric]
    by (rule sorted_rev_take) (rule sorted_rev_descending)
  have 10: "\<forall>x\<in>set (breakdownRepos rs). \<forall>y\<in>set (drop 10 (descending ?pos)).
              r_totalStale y \<le> r_totalStale x"
    unfolding breakdownRepos_eq using descending_top by blast
  from 1 2 3 4 5 6 7 8 9 10 show ?thesis by blast
qed

theorem renderBreakdownChart_latest_top10_witness:
  "drawnBars (renderBreakdownChart
      [(datedSnapshot 19815)\<lparr>repositories := Some []\<rparr>,
       (datedSnapshot 19816)\<lparr>repositories := Some exampleRepos\<rparr>]
      (StaleDashboard emptyDocument))
     = [(''konveyor/analyzer-lsp'', 5), (''konveyor/operator'', 2)] \<and>
   drawnBars (renderBreakdownChart [datedSnapshot 19816] (StaleDashboard emptyDocument)) = []"
proof -
  let ?data = "[(datedSnapshot 19815)\<lparr>repositories := Some []\<rparr>,
       (datedSnapshot 19816)\<lparr>repositories := Some exampleRepos\<rparr>]"
  note w = renderBreakdownChart_latest_top10 [of ?data "StaleDashboard emptyDocument" exampleRepos]
  have nn: "\<forall>r\<in>set exampleRepos. 0 \<le> r_totalStale r"
    by (simp add: exampleRepos_def)
  have "breakdownRepos exampleRepos
          = take 10 (descending (filter (\<lambda>r. r_totalStale r \<noteq> 0) exampleRepos))"
    using w nn by blast
  then have b: "breakdownRepos exampleRepos
          = [\<lparr>r_repo = ''konveyor/analyzer-lsp'', r_totalStale = 5\<rparr>,
             \<lparr>r_repo = ''konveyor/operator'', r_totalStale = 2\<rparr>]"
    by (simp add: exampleRepos_def descending_def)
  have "?data \<noteq> [] \<and> repositories (last ?data) = Some exampleRepos"
    by simp
  then have "drawnBars (renderBreakdownChart ?data (StaleDashboard emptyDocument))
        = map (\<lambda>r. (r_repo r, r_totalStale r)) (breakdownRepos exampleRepos)"
    using w by blast
  then have a: "drawnBars (renderBreakdownChart ?data (StaleDashboard emptyDocument))
     = [(''konveyor/analyzer-lsp'', 5), (''konveyor/operator'', 2)]"
    by (simp add: b)
  have "repositories (last [datedSnapshot 19816]) = None"
    by (simp add: datedSnapshot_def)
  then have c: "drawnBars (renderBreakdownChart [datedSnapshot 19816] (StaleDashboard emptyDocument)) = []"
    using renderBreakdownChart_latest_top10
      [of "[datedSnapshot 19816]" "StaleDashboard emptyDocument" exampleRepos]
    by blast
  from a c show ?thesis by blast
qed

section \<open>Properties of the history loader\<close>

subsection \<open>What the scan requests and loads\<close>

lemma tryLoadSnapshot_acc:
  "tryLoadSnapshot files d historyData = historyData @ loadedAt files d"
  by (simp add: tryLoadSnapshot_def loadedAt_def split: response.splits option.splits)

lemma loadHistory_loop_steps:
  "365 - i = n \<Longrightarrow>
   loadHistory_loop files tz today i (probed, historyData) =
     (probed @ map (probeDate tz today) [i..<365],
      historyData @ concat (map (\<lambda>j. loadedAt files (probeDate tz today j)) [i..<365]))"
proof (induction n arbitrary: i probed historyData)
  case 0
  then have "\<not> i < 365" by simp
  then show ?case
    by (subst loadHistory_loop.simps) simp
next
  case (Suc n)
  then have lt: "i < 365" and rest: "365 - Suc i = n" by simp_all
  have upt: "[i..<365] = i # [Suc i..<365]"
    using lt by (simp add: upt_conv_Cons)
  have "loadHistory_loop files tz today i (probed, historyData)
          = loadHistory_loop files tz today (Suc i)
              (probed @ [probeDate tz today i],
               historyData @ loadedAt files (probeDate tz today i))"
    using lt
    by (subst loadHistory_loop.simps)
       (simp add: Let_def probeDate_def tryLoadSnapshot_acc [of files _ historyData])
  also have "\<dots> = (probed @ map (probeDate tz today) [i..<365],
      historyData @ concat (map (\<lambda>j. loadedAt files (probeDate tz today j)) [i..<365]))"
    unfolding Suc.IH [OF rest] upt by simp
  finally show ?case .
qed

lemma loadHistory_loop_eq:
  "loadHistory_loop files tz today i (probed, historyData) =
     (probed @ map (probeDate tz today) [i..<365],
      historyData @ concat (map (\<lambda>j. loadedAt files (probeDate tz today j)) [i..<365]))"
  by (rule loadHistory_loop_steps [OF refl])

lemma probedDates_eq: "probedDates files tz today = map (probeDate tz today) [0..<365]"
  by (simp add: probedDates_def loadHistory_loop_eq)

lemma historyData_eq:
  "snd (loadHistory_loop files tz today 0 ([], []))
     = concat (map (\<lambda>j. loadedAt files (probeDate tz today j)) [0..<365])"
  by (simp add: loadHistory_loop_eq)

lemma historicalData_renderers:
  "historicalData (renderTrendsChart data s) = historicalData s"
  "historicalData (renderBreakdownChart data s) = historicalData s"
  by (simp_all add: renderTrendsChart_def renderBreakdownChart_def Let_def split: option.splits)

lemma historicalData_updateCharts: "historicalData (updateCharts tz now s) = historicalData s"
  by (simp add: updateCharts_def Let_def historicalData_renderers)

lemma historicalData_loadHistoricalData:
  "historicalData (loadHistoricalData files tz today now s) =
     (let loaded = concat (map (\<lambda>j. loadedAt files (probeDate tz today j)) [0..<365])
      in if loaded = [] then historicalData s else js_sort compareDates loaded)"
  by (simp add: loadHistoricalData_def historyData_eq Let_def historicalData_updateCharts)

subsection \<open>The scan across a change of the clocks\<close>

lemma upt_365_split: "[0..<365] = [0, 1, 2] @ [3..<365]"
proof -
  have "[0..<3 + 362] = [0..<3] @ [3..<3 + 362]"
    by (rule upt_add_eq_append) simp
  moreover have "[0..<3] = [0, 1, 2]"
    by code_simp
  ultimately show ?thesis by simp
qed

lemma london_probe_0: "probeDate europeLondon 1712014200000 0 = 19814"
  by (simp add: probeDate_def setDate_back_def LocalTime_def UTC_def toISODate_def
      msPerDay_def europeLondon_def)

lemma london_probe_1: "probeDate europeLondon 1712014200000 1 = 19813"
  by (simp add: probeDate_def setDate_back_def LocalTime_def UTC_def toISODate_def
      msPerDay_def europeLondon_def)

lemma london_probe_2: "probeDate europeLondon 1712014200000 2 = 19813"
  by (simp add: probeDate_def setDate_back_def LocalTime_def UTC_def toISODate_def
      msPerDay_def europeLondon_def)

lemma london_UTC_le: "UTC europeLondon l \<le> l"
  by (simp add: UTC_def europeLondon_def)

lemma london_probe_early:
  assumes "3 \<le> j"
  shows "probeDate europeLondon 1712014200000 j \<le> 19812"
proof -
  have "LocalTime europeLondon 1712014200000 = 1712017800000"
    by (simp add: LocalTime_def europeLondon_def)
  then have "setDate_back europeLondon 1712014200000 (int j)
               \<le> 1712017800000 - int j * 86400000"
    using london_UTC_le [of "1712017800000 - int j * 86400000"]
    by (simp add: setDate_back_def msPerDay_def)
  also have "\<dots> \<le> 1711758600000"
    using assms by simp
  finally have "setDate_back europeLondon 1712014200000 (int j) div 86400000
                  \<le> 1711758600000 div 86400000"
    by (rule zdiv_mono1) simp
  then show ?thesis
    by (simp add: probeDate_def toISODate_def msPerDay_def)
qed

lemma march31_loaded:
  "concat (map (\<lambda>j. loadedAt march31Store (probeDate europeLondon 1712014200000 j)) [0..<365])
     = [datedSnapshot 19813, datedSnapshot 19813]"
proof -
  have rest: "concat (map (\<lambda>j. loadedAt march31Store (probeDate europeLondon 1712014200000 j))
                [3..<365]) = []"
  proof -
    have "loadedAt march31Store (probeDate europeLondon 1712014200000 j) = []"
      if "3 \<le> j" for j
    proof -
      have "probeDate europeLondon 1712014200000 j \<le> 19812"
        using that by (rule london_probe_early)
      then show ?thesis
        by (simp add: loadedAt_def tryLoadSnapshot_def march31Store_def ok_def)
    qed
    then show ?thesis by simp
  qed
  have first: "map (\<lambda>j. loadedAt march31Store (probeDate europeLondon 1712014200000 j)) [0, 1, 2]
                 = [[], [datedSnapshot 19813], [datedSnapshot 19813]]"
    using london_probe_0 london_probe_1 london_probe_2
    by (simp add: loadedAt_def tryLoadSnapshot_def march31Store_def ok_def)
  show ?thesis
    unfolding upt_365_split map_append concat_append rest first by simp
qed

text \<open>
  Claim C2 fails on the code in a zone with daylight saving time. \<^verbatim>\<open>setDate\<close>
  moves the local day while \<^verbatim>\<open>toISOString\<close> prints the UTC day. In Europe/London at
  2024-04-01 23:30 UTC (00:30 local time on 2 April), the offsets 1 and 2 both ask for
  2024-03-31 (day 19813): local 00:30 on 1 April is 23:30 UTC on 31 March, and local 00:30
  on 31 March, before the clocks change, is 00:30 UTC on 31 March. The one snapshot file
  of that day is loaded twice, and the history holds the same date twice.
\<close>
theorem loadHistoricalData_dst_duplicate:
  "probedDates march31Store europeLondon 1712014200000 ! 1 = 19813 \<and>
   probedDates march31Store europeLondon 1712014200000 ! 2 = 19813 \<and>
   map date (historicalData (loadHistoricalData march31Store europeLondon 1712014200000 now s))
     = [19813, 19813]"
proof -
  have n1: "[0..<365] ! 1 = (1::nat)" and n2: "[0..<365] ! 2 = (2::nat)"
    by simp_all
  have "probedDates march31Store europeLondon 1712014200000 ! 1
          = probeDate europeLondon 1712014200000 ([0..<365] ! 1)"
    unfolding probedDates_eq by (rule nth_map) simp
  then have p1: "probedDates march31Store europeLondon 1712014200000 ! 1 = 19813"
    by (simp only: n1 london_probe_1)
  have "probedDates march31Store europeLondon 1712014200000 ! 2
          = probeDate europeLondon 1712014200000 ([0..<365] ! 2)"
    unfolding probedDates_eq by (rule nth_map) simp
  then have p2: "probedDates march31Store europeLondon 1712014200000 ! 2 = 19813"
    by (simp only: n2 london_probe_2)
  note p = p1 p2
  have "historicalData (loadHistoricalData march31Store europeLondon 1712014200000 now s)
          = js_sort compareDates [datedSnapshot 19813, datedSnapshot 19813]"
    by (simp add: historicalData_loadHistoricalData march31_loaded)
  then have "map date (historicalData
               (loadHistoricalData march31Store europeLondon 1712014200000 now s))
          = [19813, 19813]"
    by (simp add: compareDates_def datedSnapshot_def)
  with p show ?thesis by simp
qed

text \<open>
  In a zone with a fixed offset the scan requests 365 distinct dates, today's UTC day and
  the 364 days before it. When moreover every file carries the date it is addressed by,
  the result is sorted by date without a duplicate, and it holds exactly the snapshots of
  the requests that resolved with a success status and a body that parsed.
\<close>
lemma probeDate_fixedZone: "probeDate (fixedZone off) today i = toISODate today - int i"
proof -
  have "(today - int i * 86400000) div 86400000 = today div 86400000 - int i"
    by simp
  then show ?thesis
    by (simp add: probeDate_def setDate_back_fixedZone toISODate_def msPerDay_def)
qed

lemma js_sort_compareDates: "js_sort compareDates xs = sort_key date xs"
  by (rule js_sort_eq_sort_key) (simp add: compareDates_def Date_parse_def msPerDay_def)

lemma loadHistoricalData_fixedZone:
  assumes consistent: "\<And>d st snap. files d = Response st (Some snap) \<Longrightarrow> ok st \<Longrightarrow> date snap = d"
    and fresh: "historicalData s = []"
  shows "length (probedDates files (fixedZone off) today) = 365"
    and "probedDates files (fixedZone off) today = map (\<lambda>i. toISODate today - int i) [0..<365]"
    and "sorted (map date (historicalData (loadHistoricalData files (fixedZone off) today now s)))"
    and "distinct (map date (historicalData (loadHistoricalData files (fixedZone off) today now s)))"
    and "set (historicalData (loadHistoricalData files (fixedZone off) today now s))
           = {snap. \<exists>i<365. \<exists>st. files (toISODate today - int i) = Response st (Some snap) \<and> ok st}"
proof -
  let ?key = "\<lambda>i::nat. toISODate today - int i"
  let ?loaded = "concat (map (\<lambda>j. loadedAt files (?key j)) [0..<365])"
  let ?H = "historicalData (loadHistoricalData files (fixedZone off) today now s)"
  show "probedDates files (fixedZone off) today = map ?key [0..<365]"
    by (simp add: probedDates_eq probeDate_fixedZone)
  then show "length (probedDates files (fixedZone off) today) = 365"
    by simp
  define loaded where "loaded = ?loaded"
  have "?H = (if loaded = [] then historicalData s else js_sort compareDates loaded)"
    by (simp add: historicalData_loadHistoricalData probeDate_fixedZone Let_def loaded_def)
  then have "?H = sort_key date loaded"
    by (cases "loaded = []") (simp_all add: fresh js_sort_compareDates)
  then have H: "?H = sort_key date ?loaded"
    by (simp only: loaded_def)
  show "sorted (map date ?H)"
    unfolding H by (rule sorted_sort_key)
  have dates: "map date (loadedAt files d) = (if loadedAt files d = [] then [] else [d])" for d
    using consistent [of d]
    by (auto simp: loadedAt_def tryLoadSnapshot_def split: response.splits option.splits)
  have sub: "map date (concat (map (\<lambda>j. loadedAt files (?key j)) js))
               = map ?key (filter (\<lambda>j. loadedAt files (?key j) \<noteq> []) js)" for js
    by (induction js) (simp_all add: dates)
  have "distinct (map ?key (filter (\<lambda>j. loadedAt files (?key j) \<noteq> []) [0..<365]))"
    by (rule distinct_map_filter) (simp add: distinct_map inj_on_def)
  then have "distinct (map date ?loaded)"
    by (simp only: sub)
  then show "distinct (map date ?H)"
    unfolding H by (metis distinct_map distinct_sort set_sort)
  have "set ?H = set ?loaded"
    unfolding H by simp
  also have "\<dots> = {snap. \<exists>i<365. \<exists>st. files (?key i) = Response st (Some snap) \<and> ok st}"
  proof -
    have mem: "snap \<in> set (loadedAt files d) \<longleftrightarrow> (\<exists>st. files d = Response st (Some snap) \<and> ok st)"
      for snap d
    proof (cases "files d")
      case NetworkError
      then have "loadedAt files d = []"
        by (simp add: loadedAt_def tryLoadSnapshot_def)
      with NetworkError show ?thesis by simp
    next
      case (Response st b)
      show ?thesis
      proof (cases b)
        case None
        with Response have "loadedAt files d = []"
          by (simp add: loadedAt_def tryLoadSnapshot_def)
        with Response None show ?thesis by simp
      next
        case (Some x)
        with Response have "loadedAt files d = (if ok st then [x] else [])"
          by (simp add: loadedAt_def tryLoadSnapshot_def)
        with Response Some show ?thesis by auto
      qed
    qed
    show ?thesis
      by (auto simp: mem)
  qed
  finally show "set ?H = {snap. \<exists>i<365. \<exists>st. files (?key i) = Response st (Some snap) \<and> ok st}" .
qed

end
